theory Spec2Isabelle
  imports Complex_Main "HOL-Library.Log_Nat"
begin

section \<open>Python floats: IEEE 754 binary64, round to nearest, ties to even\<close>

text \<open>
  A Python \<open>float\<close> is an IEEE 754 binary64 number. A finite one is kept as its sign and
  its exact magnitude, a non-negative rational (the sign is separate because \<open>-0.0\<close> is a
  float of its own); the others are the two infinities and NaN. Every arithmetic operation
  computes the exact rational result and rounds it once, to the nearest float, ties to the
  even significand, which is what the hardware does for \<open>+\<close>, \<open>-\<close>, \<open>*\<close> and \<open>/\<close>.
\<close>

datatype float64 = Finite bool rat | Infinity bool | NaN

text \<open>The exponent of the leading bit of a positive rational: \<open>\<lfloor>log\<^sub>2 q\<rfloor>\<close>.\<close>

definition log2_floor :: "rat \<Rightarrow> int" where
  "log2_floor q = (if 1 \<le> q then bitlen \<lfloor>q\<rfloor> - 1 else - bitlen (\<lceil>1 / q\<rceil> - 1))"

text \<open>
  The spacing of the floats around \<open>q\<close>: 52 bits below the leading bit, and never finer
  than \<open>2\<^sup>-\<^sup>1\<^sup>0\<^sup>7\<^sup>4\<close>, the spacing of the subnormal numbers.
\<close>

definition ulp :: "rat \<Rightarrow> rat" where
  "ulp q = 2 powi (max (log2_floor q) (- 1022) - 52)"

text \<open>The nearest integer, a tie going to the even one.\<close>

definition round_half_even :: "rat \<Rightarrow> int" where
  "round_half_even x =
     (let f = \<lfloor>x\<rfloor>; r = x - of_int f
      in if r < 1 / 2 then f
         else if 1 / 2 < r then f + 1
         else if even f then f else f + 1)"

text \<open>
  Rounding the exact magnitude \<open>q\<close> of a result of sign \<open>s\<close>: the nearest multiple of the
  spacing, and an infinity once that reaches \<open>2\<^sup>1\<^sup>0\<^sup>2\<^sup>4\<close>.
\<close>

definition fl_round :: "bool \<Rightarrow> rat \<Rightarrow> float64" where
  "fl_round s q =
     (if q = 0 then Finite s 0
      else let r = of_int (round_half_even (q / ulp q)) * ulp q
           in if 2 powi 1024 \<le> r then Infinity s else Finite s r)"

text \<open>The values a float can have: a finite one is a multiple of its own spacing.\<close>

fun is_float64 :: "float64 \<Rightarrow> bool" where
  "is_float64 (Finite s q) =
     (0 \<le> q \<and> q < 2 powi 1024 \<and> (q = 0 \<or> of_int \<lfloor>q / ulp q\<rfloor> = q / ulp q))"
| "is_float64 (Infinity s) = True"
| "is_float64 NaN = True"

text \<open>A decimal literal of the source (or an \<open>int\<close> converted to \<open>float\<close>), correctly rounded.\<close>

definition fl_lit :: "rat \<Rightarrow> float64" where
  "fl_lit x = fl_round (x < 0) \<bar>x\<bar>"

fun fneg :: "float64 \<Rightarrow> float64" where
  "fneg (Finite s q) = Finite (\<not> s) q"
| "fneg (Infinity s) = Infinity (\<not> s)"
| "fneg NaN = NaN"

text \<open>The signed exact value of a finite float.\<close>

definition signed :: "bool \<Rightarrow> rat \<Rightarrow> rat" where
  "signed s q = (if s then - q else q)"

fun fadd :: "float64 \<Rightarrow> float64 \<Rightarrow> float64" where
  "fadd NaN y = NaN"
| "fadd x NaN = NaN"
| "fadd (Infinity s) (Infinity t) = (if s = t then Infinity s else NaN)"
| "fadd (Infinity s) (Finite t q) = Infinity s"
| "fadd (Finite s p) (Infinity t) = Infinity t"
| "fadd (Finite s p) (Finite t q) =
     (let x = signed s p + signed t q
      in if x = 0 then Finite (s \<and> t) 0 else fl_round (x < 0) \<bar>x\<bar>)"

definition fsub :: "float64 \<Rightarrow> float64 \<Rightarrow> float64" where
  "fsub x y = fadd x (fneg y)"

fun fmul :: "float64 \<Rightarrow> float64 \<Rightarrow> float64" where
  "fmul NaN y = NaN"
| "fmul x NaN = NaN"
| "fmul (Infinity s) (Infinity t) = Infinity (s \<noteq> t)"
| "fmul (Infinity s) (Finite t q) = (if q = 0 then NaN else Infinity (s \<noteq> t))"
| "fmul (Finite s p) (Infinity t) = (if p = 0 then NaN else Infinity (s \<noteq> t))"
| "fmul (Finite s p) (Finite t q) = fl_round (s \<noteq> t) (p * q)"

text \<open>IEEE division by a divisor that is not zero.\<close>

fun fdiv :: "float64 \<Rightarrow> float64 \<Rightarrow> float64" where
  "fdiv NaN y = NaN"
| "fdiv x NaN = NaN"
| "fdiv (Infinity s) (Infinity t) = NaN"
| "fdiv (Infinity s) (Finite t q) = Infinity (s \<noteq> t)"
| "fdiv (Finite s p) (Infinity t) = Finite (s \<noteq> t) 0"
| "fdiv (Finite s p) (Finite t q) = fl_round (s \<noteq> t) (p / q)"

section \<open>Exceptions and strings\<close>

text \<open>
  The exceptions the program can raise, each with its message. A raise is the left
  injection of the result.
\<close>

datatype error = ValueError string | ZeroDivisionError string

text \<open>
  Python's \<open>x / y\<close> on floats raises \<open>ZeroDivisionError\<close> when \<open>y\<close> is a zero of either
  sign, whatever \<open>x\<close> is, and is the IEEE quotient otherwise.
\<close>

definition truediv :: "float64 \<Rightarrow> float64 \<Rightarrow> error + float64" where
  "truediv x y =
     (case y of
        Finite t q \<Rightarrow>
          if q = 0 then Inl (ZeroDivisionError ''float division by zero'') else Inr (fdiv x y)
      | _ \<Rightarrow> Inr (fdiv x y))"

text \<open>
  A unit symbol is the list of its code points, here those below 256. \<open>str.lower()\<close> on
  that range maps \<open>A\<close>..\<open>Z\<close> and the capital letters \<open>0xC0\<close>..\<open>0xDE\<close> (all but the
  multiplication sign \<open>0xD7\<close>) to the letter 32 places on, and keeps every other character.
\<close>

definition lower_char :: "char \<Rightarrow> char" where
  "lower_char c =
     (let n = (of_char c :: nat)
      in if (65 \<le> n \<and> n \<le> 90) \<or> (192 \<le> n \<and> n \<le> 222 \<and> n \<noteq> 215)
         then char_of (n + 32) else c)"

definition lower :: "string \<Rightarrow> string" where
  "lower u = map lower_char u"

section \<open>The conversion tables\<close>

text \<open>
  The three class-level dictionaries of \<open>UnitConverter\<close>, in the order they are written:
  unit symbol to scale factor (to meters, to kilograms, to liters).
\<close>

definition LENGTH_UNITS :: "(string \<times> float64) list" where
  "LENGTH_UNITS =
     [(''mm'', fl_lit (1 / 1000)), (''cm'', fl_lit (1 / 100)), (''m'', fl_lit 1),
      (''km'', fl_lit 1000), (''in'', fl_lit (254 / 10000)), (''ft'', fl_lit (3048 / 10000)),
      (''yd'', fl_lit (9144 / 10000)), (''mi'', fl_lit (160934 / 100))]"

definition WEIGHT_UNITS :: "(string \<times> float64) list" where
  "WEIGHT_UNITS =
     [(''g'', fl_lit (1 / 1000)), (''kg'', fl_lit 1), (''t'', fl_lit 1000),
      (''oz'', fl_lit (283495 / 10000000)), (''lb'', fl_lit (453592 / 1000000)),
      (''st'', fl_lit (635029 / 100000)), (''ton'', fl_lit (907185 / 1000))]"

definition VOLUME_UNITS :: "(string \<times> float64) list" where
  "VOLUME_UNITS =
     [(''ml'', fl_lit (1 / 1000)), (''l'', fl_lit 1), (''kl'', fl_lit 1000),
      (''fl_oz'', fl_lit (295735 / 10000000)), (''cup'', fl_lit (236588 / 1000000)),
      (''pt'', fl_lit (473176 / 1000000)), (''qt'', fl_lit (946353 / 1000000)),
      (''gal'', fl_lit (378541 / 100000))]"

section \<open>The converters\<close>

text \<open>
  \<open>convert_length\<close>, \<open>convert_weight\<close> and \<open>convert_volume\<close> are the same code over the
  three tables: two membership tests, each raising \<open>ValueError\<close>, then the product with
  the source unit's factor and the quotient by the target unit's factor.
\<close>

definition convert_length :: "float64 \<Rightarrow> string \<Rightarrow> string \<Rightarrow> error + float64" where
  "convert_length value from_unit to_unit =
     (case map_of LENGTH_UNITS from_unit of
        None \<Rightarrow> Inl (ValueError (''Unknown length unit: '' @ from_unit))
      | Some sf \<Rightarrow>
          (case map_of LENGTH_UNITS to_unit of
             None \<Rightarrow> Inl (ValueError (''Unknown length unit: '' @ to_unit))
           | Some st \<Rightarrow> (let meters = fmul value sf in truediv meters st)))"

definition convert_weight :: "float64 \<Rightarrow> string \<Rightarrow> string \<Rightarrow> error + float64" where
  "convert_weight value from_unit to_unit =
     (case map_of WEIGHT_UNITS from_unit of
        None \<Rightarrow> Inl (ValueError (''Unknown weight unit: '' @ from_unit))
      | Some sf \<Rightarrow>
          (case map_of WEIGHT_UNITS to_unit of
             None \<Rightarrow> Inl (ValueError (''Unknown weight unit: '' @ to_unit))
           | Some st \<Rightarrow> (let kg = fmul value sf in truediv kg st)))"

definition convert_volume :: "float64 \<Rightarrow> string \<Rightarrow> string \<Rightarrow> error + float64" where
  "convert_volume value from_unit to_unit =
     (case map_of VOLUME_UNITS from_unit of
        None \<Rightarrow> Inl (ValueError (''Unknown volume unit: '' @ from_unit))
      | Some sf \<Rightarrow>
          (case map_of VOLUME_UNITS to_unit of
             None \<Rightarrow> Inl (ValueError (''Unknown volume unit: '' @ to_unit))
           | Some st \<Rightarrow> (let liters = fmul value sf in truediv liters st)))"

text \<open>
  \<open>convert_temperature\<close> lowers both symbols itself. The first chain brings the value to
  Celsius or raises; the second leaves Celsius or raises. The operators associate to the
  left, so \<open>(value - 32) * 5 / 9\<close> is a product divided by 9 and \<open>celsius * 9 / 5\<close> a
  product divided by 5; the \<open>int\<close> operands are converted to floats first.
\<close>

definition convert_temperature :: "float64 \<Rightarrow> string \<Rightarrow> string \<Rightarrow> error + float64" where
  "convert_temperature value from_unit0 to_unit0 =
     (let from_unit = lower from_unit0; to_unit = lower to_unit0
      in case (if from_unit \<in> set [''c'', ''celsius''] then Inr value
               else if from_unit \<in> set [''f'', ''fahrenheit''] then
                 truediv (fmul (fsub value (fl_lit 32)) (fl_lit 5)) (fl_lit 9)
               else if from_unit \<in> set [''k'', ''kelvin''] then
                 Inr (fsub value (fl_lit (27315 / 100)))
               else Inl (ValueError (''Unknown temperature unit: '' @ from_unit))) of
           Inl e \<Rightarrow> Inl e
         | Inr celsius \<Rightarrow>
             if to_unit \<in> set [''c'', ''celsius''] then Inr celsius
             else if to_unit \<in> set [''f'', ''fahrenheit''] then
               (case truediv (fmul celsius (fl_lit 9)) (fl_lit 5) of
                  Inl e \<Rightarrow> Inl e
                | Inr x \<Rightarrow> Inr (fadd x (fl_lit 32)))
             else if to_unit \<in> set [''k'', ''kelvin''] then
               Inr (fadd celsius (fl_lit (27315 / 100)))
             else Inl (ValueError (''Unknown temperature unit: '' @ to_unit)))"

text \<open>
  \<open>get_category\<close>: the lowered symbol is looked for in the three tables in turn, then in
  the list of temperature names; the result is the category's name, or \<open>None\<close>.
\<close>

definition get_category :: "string \<Rightarrow> string option" where
  "get_category unit =
     (let unit_lower = lower unit
      in if unit_lower \<in> dom (map_of LENGTH_UNITS) then Some ''length''
         else if unit_lower \<in> dom (map_of WEIGHT_UNITS) then Some ''weight''
         else if unit_lower \<in> dom (map_of VOLUME_UNITS) then Some ''volume''
         else if unit_lower \<in> set [''c'', ''celsius'', ''f'', ''fahrenheit'', ''k'', ''kelvin'']
           then Some ''temperature''
         else None)"

section \<open>The command line\<close>

text \<open>
  What \<open>main\<close> prints for a request, one constructor for each \<open>print\<close> path of its
  \<open>try\<close> block:
  \<^item> \<open>Unknown_unit u\<close>: \<open>Error: Unknown unit 'u'\<close> and the unit listing;
  \<^item> \<open>Category_mismatch u c u' c'\<close>: \<open>Error: Units must be of the same category\<close> and
    \<open>'u' is c, but 'u'' is c'\<close>;
  \<^item> \<open>Unsupported_category c\<close>: \<open>Error: Unsupported category: c\<close>;
  \<^item> \<open>Converted v u r u'\<close>: the result line \<open>v u = r u'\<close>, with \<open>r\<close> to six decimals;
  \<^item> \<open>Value_error m\<close>: \<open>Error: m\<close> and the unit listing, for a \<open>ValueError\<close> caught;
  \<^item> \<open>Unexpected_error m\<close>: \<open>Unexpected error: m\<close>, for any other exception caught.
\<close>

datatype report =
    Unknown_unit string
  | Category_mismatch string string string "string option"
  | Unsupported_category string
  | Converted float64 string float64 string
  | Value_error string
  | Unexpected_error string

text \<open>
  \<open>main\<close> from the point where the three positional arguments are present: the category
  of the source symbol, the comparison with the category of the target symbol, the
  dispatch on the category's name (the linear converters get the lowered symbols, the
  temperature converter the symbols as typed), and the two exception handlers.
\<close>

definition main :: "float64 \<Rightarrow> string \<Rightarrow> string \<Rightarrow> report" where
  "main value from_unit to_unit =
     (case get_category from_unit of
        None \<Rightarrow> Unknown_unit from_unit
      | Some category \<Rightarrow>
          if Some category \<noteq> get_category to_unit
          then Category_mismatch from_unit category to_unit (get_category to_unit)
          else
            (case (if category = ''length''
                     then Some (convert_length value (lower from_unit) (lower to_unit))
                   else if category = ''weight''
                     then Some (convert_weight value (lower from_unit) (lower to_unit))
                   else if category = ''volume''
                     then Some (convert_volume value (lower from_unit) (lower to_unit))
                   else if category = ''temperature''
                     then Some (convert_temperature value from_unit to_unit)
                   else None) of
               None \<Rightarrow> Unsupported_category category
             | Some (Inr result) \<Rightarrow> Converted value from_unit result to_unit
             | Some (Inl (ValueError m)) \<Rightarrow> Value_error m
             | Some (Inl (ZeroDivisionError m)) \<Rightarrow> Unexpected_error m))"

text \<open>The number a report carries, if it is a result line.\<close>

fun result_of :: "report \<Rightarrow> float64 option" where
  "result_of (Converted v u r u') = Some r"
| "result_of other = None"

section \<open>The temperature formulas as the specification writes them\<close>

text \<open>
  The two steps of the specification, over symbols already lowered and recognised:
  to Celsius \<open>value\<close>, \<open>(value - 32) * 5/9\<close> or \<open>value - 273.15\<close>, and from Celsius
  \<open>celsius\<close>, \<open>celsius * 9/5 + 32\<close> or \<open>celsius + 273.15\<close>, each operator a float
  operation and \<open>*\<close>, \<open>/\<close> read from left to right.
\<close>

definition spec_to_celsius :: "string \<Rightarrow> float64 \<Rightarrow> float64" where
  "spec_to_celsius u v =
     (if u \<in> {''c'', ''celsius''} then v
      else if u \<in> {''f'', ''fahrenheit''} then fdiv (fmul (fsub v (fl_lit 32)) (fl_lit 5)) (fl_lit 9)
      else fsub v (fl_lit (27315 / 100)))"

definition spec_from_celsius :: "string \<Rightarrow> float64 \<Rightarrow> float64" where
  "spec_from_celsius u celsius =
     (if u \<in> {''c'', ''celsius''} then celsius
      else if u \<in> {''f'', ''fahrenheit''} then fadd (fdiv (fmul celsius (fl_lit 9)) (fl_lit 5)) (fl_lit 32)
      else fadd celsius (fl_lit (27315 / 100)))"

section \<open>Auxiliary notions for the statements\<close>

text \<open>A scale factor that is a positive finite float between \<open>2\<^sup>-\<^sup>1\<^sup>0\<close> and \<open>2\<^sup>1\<^sup>1\<close>.\<close>

fun scale_in_range :: "float64 \<Rightarrow> bool" where
  "scale_in_range (Finite s p) = (\<not> s \<and> 2 powi (- 10) \<le> p \<and> p \<le> 2 powi 11)"
| "scale_in_range other = False"

text \<open>A float that is greater than zero: \<open>0.0 < x\<close> in Python.\<close>

fun positive :: "float64 \<Rightarrow> bool" where
  "positive (Finite s p) = (\<not> s \<and> 0 < p)"
| "positive (Infinity s) = (\<not> s)"
| "positive NaN = False"

text \<open>The symbols a table registers.\<close>

definition symbols :: "(string \<times> float64) list \<Rightarrow> string set" where
  "symbols table = set (map fst table)"

text \<open>The temperature names of \<open>get_category\<close>.\<close>

definition temperature_symbols :: "string set" where
  "temperature_symbols = {''c'', ''celsius'', ''f'', ''fahrenheit'', ''k'', ''kelvin''}"

section \<open>Powers of two and the leading bit\<close>

lemma pow2_pos: "0 < (2::rat) powi k"
  by (simp add: zero_less_power_int)

lemma pow2_mono: "a \<le> b \<Longrightarrow> (2::rat) powi a \<le> 2 powi b"
  by (rule power_int_increasing) simp_all

lemma pow2_less_exp: "(2::rat) powi a < 2 powi b \<Longrightarrow> a < b"
proof (rule ccontr)
  assume lt: "(2::rat) powi a < 2 powi b" and "\<not> a < b"
  then have "b \<le> a" by simp
  then have "(2::rat) powi b \<le> 2 powi a" by (rule pow2_mono)
  with lt show False by simp
qed

lemma pow2_succ: "(2::rat) powi (k + 1) = 2 * 2 powi k"
  by (simp add: power_int_add)

lemma pow2_nat: "0 \<le> k \<Longrightarrow> (2::rat) powi k = 2 ^ nat k"
  by (simp add: power_int_def)

lemma log2_floor_bounds:
  assumes "0 < q"
  shows "2 powi (log2_floor q) \<le> q" and "q < 2 powi (log2_floor q + 1)"
proof -
  have "2 powi (log2_floor q) \<le> q \<and> q < 2 powi (log2_floor q + 1)"
  proof (cases "1 \<le> q")
    case True
    define n where "n = \<lfloor>q\<rfloor>"
    have n: "0 < n" using True by (simp add: n_def)
    have b1: "1 \<le> bitlen n" using n by (simp add: bitlen_alt_def)
    from bitlen_bounds[OF n] have lo: "2 ^ nat (bitlen n - 1) \<le> n" and hi: "n < 2 ^ nat (bitlen n)"
      by auto
    have "of_int ((2::int) ^ nat (bitlen n - 1)) \<le> (of_int n :: rat)"
      using lo by (simp only: of_int_le_iff)
    also have "(of_int n :: rat) \<le> q" by (simp add: n_def)
    finally have A: "(2::rat) ^ nat (bitlen n - 1) \<le> q" by simp
    have "n + 1 \<le> 2 ^ nat (bitlen n)" using hi by simp
    then have "(of_int (n + 1) :: rat) \<le> of_int (2 ^ nat (bitlen n))"
      by (simp only: of_int_le_iff)
    moreover have "q < of_int (n + 1)" unfolding n_def by linarith
    ultimately have B: "q < (2::rat) ^ nat (bitlen n)" by simp
    have e: "log2_floor q = bitlen n - 1" using True by (simp add: log2_floor_def n_def)
    show ?thesis using A B b1 by (simp add: e pow2_nat)
  next
    case False
    define x where "x = 1 / q"
    define n where "n = \<lceil>x\<rceil> - 1"
    have x1: "1 < x" using False assms by (simp add: x_def)
    have n: "0 < n" using x1 unfolding n_def by linarith
    have b1: "1 \<le> bitlen n" using n by (simp add: bitlen_alt_def)
    from bitlen_bounds[OF n] have lo: "2 ^ nat (bitlen n - 1) \<le> n" and hi: "n < 2 ^ nat (bitlen n)"
      by auto
    have nx: "of_int n < x" unfolding n_def by linarith
    have xn: "x \<le> of_int (n + 1)" unfolding n_def by simp
    have "of_int ((2::int) ^ nat (bitlen n - 1)) \<le> (of_int n :: rat)"
      using lo by (simp only: of_int_le_iff)
    then have "(2::rat) ^ nat (bitlen n - 1) \<le> of_int n" by simp
    then have A: "(2::rat) ^ nat (bitlen n - 1) < x" using nx by linarith
    have "n + 1 \<le> 2 ^ nat (bitlen n)" using hi by simp
    then have "(of_int (n + 1) :: rat) \<le> of_int (2 ^ nat (bitlen n))"
      by (simp only: of_int_le_iff)
    then have B: "x \<le> (2::rat) ^ nat (bitlen n)" using xn by simp
    have e: "log2_floor q = - bitlen n" using False by (simp add: log2_floor_def n_def x_def)
    have q: "q = 1 / x" using assms by (simp add: x_def)
    have xpos: "0 < x" using x1 by simp
    have P: "(2::rat) powi (- bitlen n) = 1 / 2 ^ nat (bitlen n)"
      using b1 by (simp add: power_int_minus_divide pow2_nat)
    have Q: "(2::rat) powi (- bitlen n + 1) = 1 / 2 ^ nat (bitlen n - 1)"
    proof -
      have "(2::rat) powi (- bitlen n + 1) = 2 powi (- (bitlen n - 1))" by simp
      also have "\<dots> = 1 / 2 powi (bitlen n - 1)" by (rule power_int_minus_divide)
      also have "\<dots> = 1 / 2 ^ nat (bitlen n - 1)" using b1 by (simp add: pow2_nat)
      finally show ?thesis .
    qed
    have "1 / 2 ^ nat (bitlen n) \<le> 1 / x" using B xpos by (simp add: frac_le)
    then have C: "1 / 2 ^ nat (bitlen n) \<le> q" by (simp only: q)
    have "1 / x < 1 / 2 ^ nat (bitlen n - 1)" using A xpos
      by (simp add: frac_less2)
    then have D: "q < 1 / 2 ^ nat (bitlen n - 1)" by (simp only: q)
    show ?thesis using C D by (simp only: e P Q)
  qed
  then show "2 powi (log2_floor q) \<le> q" and "q < 2 powi (log2_floor q + 1)" by auto
qed

lemma log2_floor_unique:
  assumes "2 powi e \<le> q" and "q < 2 powi (e + 1)"
  shows "log2_floor q = e"
proof -
  have q: "0 < q" using assms(1) pow2_pos[of e] by linarith
  note b = log2_floor_bounds[OF q]
  have "(2::rat) powi e < 2 powi (log2_floor q + 1)" using assms(1) b(2) by linarith
  then have "e < log2_floor q + 1" by (rule pow2_less_exp)
  moreover have "(2::rat) powi (log2_floor q) < 2 powi (e + 1)" using assms(2) b(1) by linarith
  then have "log2_floor q < e + 1" by (rule pow2_less_exp)
  ultimately show ?thesis by simp
qed

lemma round_half_even_error: "\<bar>of_int (round_half_even x) - x\<bar> \<le> 1 / 2"
proof -
  have "of_int \<lfloor>x\<rfloor> \<le> x" "x < of_int \<lfloor>x\<rfloor> + 1" by linarith+
  then show ?thesis
    by (auto simp add: round_half_even_def Let_def)
qed

lemma round_half_even_near:
  assumes "\<bar>x - of_int m\<bar> < 1 / 2"
  shows "round_half_even x = m"
proof -
  have "\<bar>(of_int (round_half_even x) :: rat) - of_int m\<bar> < 1"
    using round_half_even_error[of x] assms by linarith
  then have "\<bar>(of_int (round_half_even x - m) :: rat)\<bar> < 1" by simp
  then have "\<bar>round_half_even x - m\<bar> < 1"
    by (metis of_int_abs of_int_less_1_iff)
  then show ?thesis by simp
qed

lemma round_half_even_of_int: "round_half_even (of_int m) = m"
  by (rule round_half_even_near) simp

lemma round_half_even_ge:
  assumes "of_int n \<le> x"
  shows "n \<le> round_half_even x"
proof -
  have "n \<le> \<lfloor>x\<rfloor>" using assms by (simp add: le_floor_iff)
  then show ?thesis by (auto simp add: round_half_even_def Let_def)
qed

section \<open>Rounding\<close>

lemma ulp_pos: "0 < ulp q"
  by (simp add: ulp_def pow2_pos)

lemma ulp_normal:
  assumes "2 powi e \<le> q" and "q < 2 powi (e + 1)" and "- 1022 \<le> e"
  shows "ulp q = 2 powi (e - 52)"
  using assms by (simp add: ulp_def log2_floor_unique [OF assms(1,2)] max_def)

lemma fl_round_near:
  assumes "0 < q" and "\<bar>q - of_int m * ulp q\<bar> < ulp q / 2"
    and "of_int m * ulp q < 2 powi 1024"
  shows "fl_round s q = Finite s (of_int m * ulp q)"
proof -
  have "q / ulp q - of_int m = (q - of_int m * ulp q) / ulp q"
    using ulp_pos [of q] by (simp add: field_simps)
  then have "\<bar>q / ulp q - of_int m\<bar> = \<bar>q - of_int m * ulp q\<bar> / ulp q"
    using ulp_pos [of q] by (simp add: abs_divide)
  also have "\<dots> < 1 / 2"
    using assms(2) ulp_pos [of q] by (simp add: field_simps)
  finally have "round_half_even (q / ulp q) = m" by (rule round_half_even_near)
  then show ?thesis using assms(1,3) by (simp add: fl_round_def)
qed

lemma fl_round_normal:
  assumes "2 powi e \<le> q" and "q < 2 powi (e + 1)" and "- 1022 \<le> e"
    and "r = of_int m * 2 powi (e - 52)"
    and "\<bar>q - r\<bar> < 2 powi (e - 53)" and "r < 2 powi 1024"
  shows "fl_round s q = Finite s r"
proof -
  have q: "0 < q" using assms(1) pow2_pos [of e] by linarith
  have u: "ulp q = 2 powi (e - 52)" by (rule ulp_normal [OF assms(1-3)])
  have h: "(2::rat) powi (e - 52) / 2 = 2 powi (e - 53)"
  proof -
    have "(2::rat) powi (e - 52) = 2 powi ((e - 53) + 1)" by simp
    also have "\<dots> = 2 * 2 powi (e - 53)" by (rule pow2_succ)
    finally show ?thesis by simp
  qed
  have "fl_round s q = Finite s (of_int m * ulp q)"
    by (rule fl_round_near [OF q]) (use assms(4-6) in \<open>simp_all add: u h\<close>)
  then show ?thesis by (simp add: u assms(4))
qed

lemma fl_round_overflow:
  assumes "2 powi 1024 \<le> q"
  shows "fl_round s q = Infinity s"
proof -
  have q: "0 < q" using assms pow2_pos [of 1024] by linarith
  define e where "e = log2_floor q"
  have "(2::rat) powi 1024 < 2 powi (e + 1)"
    using assms log2_floor_bounds(2) [OF q] unfolding e_def by linarith
  then have e: "1024 \<le> e" using pow2_less_exp by fastforce
  have u: "ulp q = 2 powi (e - 52)" using e by (simp add: ulp_def e_def max_def)
  have "(2::rat) powi e = 2 powi (52 + (e - 52))" by simp
  also have "\<dots> = 2 powi 52 * 2 powi (e - 52)" by (rule power_int_add) simp
  finally have split: "(2::rat) powi e = 2 ^ 52 * 2 powi (e - 52)" by simp
  have "2 powi e \<le> q" using log2_floor_bounds(1) [OF q] by (simp only: e_def)
  then have "2 ^ 52 * ulp q \<le> q" by (simp only: u split)
  then have "(of_int (2 ^ 52) :: rat) \<le> q / ulp q"
    using ulp_pos [of q] by (simp add: field_simps)
  then have "2 ^ 52 \<le> round_half_even (q / ulp q)" by (rule round_half_even_ge)
  then have "(of_int (2 ^ 52) :: rat) \<le> of_int (round_half_even (q / ulp q))"
    by (simp only: of_int_le_iff)
  then have "2 ^ 52 * ulp q \<le> of_int (round_half_even (q / ulp q)) * ulp q"
    using ulp_pos [of q] by simp
  then have "2 powi e \<le> of_int (round_half_even (q / ulp q)) * ulp q"
    by (simp only: u split)
  moreover have "(2::rat) powi 1024 \<le> 2 powi e" using e by (rule pow2_mono)
  ultimately have "2 powi 1024 \<le> of_int (round_half_even (q / ulp q)) * ulp q"
    by linarith
  then show ?thesis using q by (simp add: fl_round_def)
qed

lemma fl_round_exact:
  assumes "is_float64 (Finite s q)"
  shows "fl_round s q = Finite s q"
proof (cases "q = 0")
  case True
  then show ?thesis by (simp add: fl_round_def)
next
  case False
  then have i: "of_int \<lfloor>q / ulp q\<rfloor> = q / ulp q" and lt: "q < 2 powi 1024"
    using assms by auto
  have "round_half_even (q / ulp q) = \<lfloor>q / ulp q\<rfloor>"
    using round_half_even_of_int [of "\<lfloor>q / ulp q\<rfloor>"] by (simp only: i)
  then have "of_int (round_half_even (q / ulp q)) * ulp q = q"
    using ulp_pos [of q] by (simp add: i)
  then show ?thesis using False lt by (simp add: fl_round_def)
qed

lemma fl_round_rel_error:
  assumes "2 powi (- 1022) \<le> q" and "q \<le> 2 powi 1023"
  shows "\<exists>r. fl_round s q = Finite s r \<and> \<bar>r - q\<bar> \<le> q * 2 powi (- 53)"
proof -
  have q: "0 < q" using assms(1) pow2_pos [of "- 1022"] by linarith
  define e where "e = log2_floor q"
  have lo: "2 powi e \<le> q" and hi: "q < 2 powi (e + 1)"
    using log2_floor_bounds [OF q] by (simp_all add: e_def)
  have "(2::rat) powi (- 1022) < 2 powi (e + 1)" using assms(1) hi by linarith
  then have e: "- 1022 \<le> e" using pow2_less_exp by fastforce
  have u: "ulp q = 2 powi (e - 52)" by (rule ulp_normal [OF lo hi e])
  define r where "r = of_int (round_half_even (q / ulp q)) * ulp q"
  have "r - q = (of_int (round_half_even (q / ulp q)) - q / ulp q) * ulp q"
    using ulp_pos [of q] by (simp add: r_def field_simps)
  then have "\<bar>r - q\<bar> = \<bar>of_int (round_half_even (q / ulp q)) - q / ulp q\<bar> * ulp q"
    using ulp_pos [of q] by (simp add: abs_mult)
  also have "\<dots> \<le> (1 / 2) * ulp q"
    using round_half_even_error [of "q / ulp q"] ulp_pos [of q]
    by (intro mult_right_mono) simp_all
  finally have err: "\<bar>r - q\<bar> \<le> ulp q / 2" by simp
  have "(2::rat) powi e = 2 powi (53 + (e - 53))" by simp
  also have "\<dots> = 2 powi 53 * 2 powi (e - 53)" by (rule power_int_add) simp
  finally have split: "(2::rat) powi e = 2 ^ 53 * 2 powi (e - 53)" by simp
  have "(2::rat) powi (e - 52) = 2 powi ((e - 53) + 1)" by simp
  also have "\<dots> = 2 * 2 powi (e - 53)" by (rule pow2_succ)
  finally have half: "ulp q / 2 = 2 powi (e - 53)" by (simp add: u)
  have "2 powi (e - 53) = 2 powi e * (2::rat) powi (- 53)"
    by (simp add: split power_int_minus_divide)
  also have "\<dots> \<le> q * 2 powi (- 53)"
    using lo pow2_pos [of "- 53"] by (intro mult_right_mono) simp_all
  finally have bound: "\<bar>r - q\<bar> \<le> q * 2 powi (- 53)" using err half by linarith
  have "q * 2 powi (- 53) < q * 1" using q by (intro mult_strict_left_mono) simp_all
  then have "r < q + q" using bound by linarith
  also have "\<dots> \<le> 2 * 2 powi 1023" using assms(2) by simp
  also have "\<dots> = (2::rat) powi 1024" by simp
  finally have fin: "\<not> 2 powi 1024 \<le> r" by simp
  show ?thesis using q fin bound by (simp add: fl_round_def r_def [symmetric] Let_def)
qed

section \<open>Rounding returns a float\<close>

lemma round_half_even_le:
  assumes "x \<le> of_int n"
  shows "round_half_even x \<le> n"
proof (cases "x = of_int n")
  case True
  then show ?thesis by (simp add: round_half_even_of_int)
next
  case False
  then have "x < of_int n" using assms by simp
  then have "\<lfloor>x\<rfloor> < n" by (simp add: floor_less_iff)
  then show ?thesis by (auto simp add: round_half_even_def Let_def)
qed

lemma pow2_int: "0 \<le> k \<Longrightarrow> (2::rat) powi k = of_int (2 ^ nat k)"
  by (simp add: pow2_nat)

lemma pow2_diff: "(2::rat) powi a / 2 powi b = 2 powi (a - b)"
  by (simp add: power_int_diff)

lemma floor_of_integer: "x = of_int m \<Longrightarrow> (of_int \<lfloor>x\<rfloor> :: rat) = x"
  by simp

lemma fl_round_is_float64:
  assumes "0 \<le> q"
  shows "is_float64 (fl_round s q)"
proof (cases "q = 0")
  case True
  then show ?thesis by (simp add: fl_round_def)
next
  case False
  then have q: "0 < q" using assms by simp
  define k where "k = max (log2_floor q) (- 1022)"
  define n where "n = round_half_even (q / ulp q)"
  define r where "r = of_int n * ulp q"
  have u: "ulp q = 2 powi (k - 52)" by (simp add: ulp_def k_def)
  have k: "- 1022 \<le> k" "log2_floor q \<le> k" by (simp_all add: k_def)
  have n0: "0 \<le> n"
    unfolding n_def using q ulp_pos [of q] by (intro round_half_even_ge) simp
  have "q < 2 powi (log2_floor q + 1)" by (rule log2_floor_bounds(2) [OF q])
  also have "\<dots> \<le> 2 powi (k + 1)" using k(2) by (intro pow2_mono) simp
  finally have "q / ulp q < 2 powi (k + 1) / 2 powi (k - 52)"
    using ulp_pos [of q] by (simp add: u divide_strict_right_mono)
  also have "\<dots> = 2 powi 53" by (simp add: pow2_diff)
  finally have "q / ulp q \<le> of_int (2 ^ 53)" by simp
  then have n53: "n \<le> 2 ^ 53" unfolding n_def by (rule round_half_even_le)
  have r0: "0 \<le> r" using n0 ulp_pos [of q] by (simp add: r_def)
  show ?thesis
  proof (cases "2 powi 1024 \<le> r")
    case True
    then show ?thesis using False by (simp add: fl_round_def r_def n_def)
  next
    case fin: False
    have int: "r = 0 \<or> of_int \<lfloor>r / ulp r\<rfloor> = r / ulp r"
    proof (cases "n = 0")
      case True
      then show ?thesis by (simp add: r_def)
    next
      case nz: False
      then have n1: "1 \<le> n" using n0 by simp
      have rpos: "0 < r" using n1 ulp_pos [of q] by (simp add: r_def)
      show ?thesis
      proof (cases "n = 2 ^ 53")
        case True
        have "r = 2 powi 53 * 2 powi (k - 52)" by (simp add: r_def u True)
        also have "\<dots> = 2 powi (53 + (k - 52))" by (rule power_int_add [symmetric]) simp
        finally have r: "r = 2 powi (k + 1)" by (simp add: add.commute)
        have "log2_floor r = k + 1"
          by (rule log2_floor_unique) (simp_all add: r power_int_strict_increasing)
        then have "ulp r = 2 powi (k + 1 - 52)" using k(1) by (simp add: ulp_def max_def)
        then have "r / ulp r = 2 powi 52" by (simp add: r pow2_diff)
        then have "r / ulp r = of_int (2 ^ 52)" by simp
        then show ?thesis by (intro disjI2 floor_of_integer)
      next
        case False
        then have "n + 1 \<le> 2 ^ 53" using n53 by simp
        then have "(of_int n :: rat) < of_int (2 ^ 53)" by (simp only: of_int_less_iff)
        then have "r < 2 powi 53 * 2 powi (k - 52)"
          using ulp_pos [of q] by (simp add: r_def u)
        also have "\<dots> = 2 powi (53 + (k - 52))" by (rule power_int_add [symmetric]) simp
        finally have "r < 2 powi (k + 1)" by (simp add: add.commute)
        then have "2 powi (log2_floor r) < (2::rat) powi (k + 1)"
          using log2_floor_bounds(1) [OF rpos] by linarith
        then have "log2_floor r < k + 1" by (rule pow2_less_exp)
        then have kk: "max (log2_floor r) (- 1022) \<le> k" using k(1) by simp
        define j where "j = k - max (log2_floor r) (- 1022)"
        have j: "0 \<le> j" using kk by (simp add: j_def)
        have "ulp r = 2 powi (max (log2_floor r) (- 1022) - 52)" by (rule ulp_def)
        moreover have "r = of_int n * 2 powi (k - 52)" by (simp only: r_def u)
        ultimately have "r / ulp r
            = of_int n * (2 powi (k - 52) / 2 powi (max (log2_floor r) (- 1022) - 52))"
          by (metis times_divide_eq_right)
        also have "\<dots> = of_int n * 2 powi j" by (simp add: pow2_diff j_def)
        also have "\<dots> = of_int (n * 2 ^ nat j)" by (simp add: pow2_int [OF j])
        finally show ?thesis by (intro disjI2 floor_of_integer)
      qed
    qed
    have "fl_round s q = Finite s r" using False fin by (simp add: fl_round_def r_def n_def)
    then show ?thesis using r0 fin int by simp
  qed
qed

lemma is_float64_fl_lit: "is_float64 (fl_lit x)"
  by (simp add: fl_lit_def fl_round_is_float64)

lemma is_float64_nonneg: "is_float64 (Finite s q) \<Longrightarrow> 0 \<le> q"
  by simp

lemma is_float64_fmul:
  assumes "is_float64 x" and "is_float64 y"
  shows "is_float64 (fmul x y)"
proof (cases x)
  case x: (Finite s p)
  show ?thesis
  proof (cases y)
    case (Finite t q)
    then have "0 \<le> p * q" using assms x by simp
    then show ?thesis using x Finite by (simp add: fl_round_is_float64)
  qed (simp_all add: x)
next
  case (Infinity s)
  then show ?thesis by (cases y) simp_all
next
  case NaN
  then show ?thesis by simp
qed

lemma is_float64_fdiv:
  assumes "is_float64 x" and "is_float64 y"
  shows "is_float64 (fdiv x y)"
proof (cases x)
  case x: (Finite s p)
  show ?thesis
  proof (cases y)
    case (Finite t q)
    then have "0 \<le> p / q" using assms x by simp
    then show ?thesis using x Finite by (simp add: fl_round_is_float64)
  qed (simp_all add: x)
next
  case (Infinity s)
  then show ?thesis by (cases y) simp_all
next
  case NaN
  then show ?thesis by simp
qed

lemma is_float64_fadd:
  assumes "is_float64 x" and "is_float64 y"
  shows "is_float64 (fadd x y)"
proof (cases x)
  case x: (Finite s p)
  show ?thesis
  proof (cases y)
    case (Finite t q)
    then show ?thesis using x by (simp add: Let_def fl_round_is_float64)
  qed (simp_all add: x)
next
  case (Infinity s)
  then show ?thesis by (cases y) simp_all
next
  case NaN
  then show ?thesis by simp
qed

lemma is_float64_fneg: "is_float64 x \<Longrightarrow> is_float64 (fneg x)"
  by (cases x) simp_all

lemma is_float64_fsub: "is_float64 x \<Longrightarrow> is_float64 y \<Longrightarrow> is_float64 (fsub x y)"
  by (simp add: fsub_def is_float64_fadd is_float64_fneg)

section \<open>Error of a product followed by a quotient\<close>

lemma near_trans:
  fixes a b c :: rat
  assumes "0 < a" and "\<bar>b - a\<bar> \<le> a * d1" and "\<bar>c - b\<bar> \<le> b * d2" and "0 \<le> d2"
  shows "\<bar>c - a\<bar> \<le> a * (d1 + d2 + d1 * d2)"
proof -
  have "b \<le> a + a * d1" using assms(2) by linarith
  then have "b * d2 \<le> (a + a * d1) * d2" using assms(4) by (rule mult_right_mono)
  then have "\<bar>c - b\<bar> \<le> a * d2 + a * d1 * d2" using assms(3) by (simp add: algebra_simps)
  then have "\<bar>c - a\<bar> \<le> a * d1 + (a * d2 + a * d1 * d2)" using assms(2) by linarith
  then show ?thesis by (simp add: algebra_simps)
qed

lemma near_half:
  fixes a b :: rat
  assumes "0 < a" and "\<bar>b - a\<bar> \<le> a * d" and "d \<le> 1 / 2"
  shows "a / 2 \<le> b" and "b \<le> 2 * a"
proof -
  have "a * d \<le> a * (1 / 2)" using assms(1,3) by (intro mult_left_mono) simp_all
  then have "\<bar>b - a\<bar> \<le> a / 2" using assms(2) by simp
  then show "a / 2 \<le> b" and "b \<le> 2 * a" using assms(1) by linarith+
qed

lemma mul_div_error:
  assumes p1: "0 < p1"
    and p2: "2 powi (- 10) \<le> p2" "p2 \<le> 2 powi 11"
    and q: "2 powi (- 1010) \<le> q * p1" "q * p1 \<le> 2 powi 1011"
  shows "\<exists>r. truediv (fmul (Finite s q) (Finite False p1)) (Finite False p2) = Inr (Finite s r)
           \<and> \<bar>r - q * p1 / p2\<bar> \<le> (q * p1 / p2) * 2 powi (- 51)"
proof -
  define u :: rat where "u = 2 powi (- 53)"
  have u: "0 \<le> u" "u \<le> 1 / 2" "u + u + u * u \<le> 2 powi (- 51)" by (simp_all add: u_def)
  have p2pos: "0 < p2" using p2(1) pow2_pos [of "- 10"] by linarith
  have qp: "0 < q * p1" using q(1) pow2_pos [of "- 1010"] by linarith
  have "2 powi (- 1022) \<le> q * p1"
    using q(1) pow2_mono [of "- 1022" "- 1010"] by simp
  moreover have "q * p1 \<le> 2 powi 1023"
    using q(2) pow2_mono [of 1011 1023] by simp
  ultimately obtain x1 where x1: "fl_round s (q * p1) = Finite s x1"
    and e1: "\<bar>x1 - q * p1\<bar> \<le> q * p1 * u"
    unfolding u_def using fl_round_rel_error by blast
  have x1b: "q * p1 / 2 \<le> x1" "x1 \<le> 2 * (q * p1)"
    using near_half [OF qp e1 u(2)] by simp_all
  have x1pos: "0 < x1" using x1b(1) qp by linarith
  have lo: "2 powi (- 1022) \<le> x1 / p2"
  proof -
    have "(2::rat) powi (- 1022) * p2 \<le> 2 powi (- 1022) * 2 powi 11"
      using p2(2) by (intro mult_left_mono) simp_all
    also have "\<dots> = 2 powi (- 1010) / 2" by simp
    also have "\<dots> \<le> q * p1 / 2" using q(1) by simp
    also have "\<dots> \<le> x1" by (rule x1b(1))
    finally show ?thesis using p2pos by (simp add: pos_le_divide_eq)
  qed
  have hi: "x1 / p2 \<le> 2 powi 1023"
  proof -
    have "x1 \<le> 2 * 2 powi 1011" using x1b(2) q(2) by linarith
    also have "\<dots> \<le> 2 powi 1023 * (2::rat) powi (- 10)" by simp
    also have "\<dots> \<le> 2 powi 1023 * p2" using p2(1) by (intro mult_left_mono) simp_all
    finally show ?thesis using p2pos by (simp add: pos_divide_le_eq)
  qed
  obtain x2 where x2: "fl_round s (x1 / p2) = Finite s x2"
    and e2: "\<bar>x2 - x1 / p2\<bar> \<le> x1 / p2 * u"
    unfolding u_def using fl_round_rel_error [OF lo hi] by blast
  have a: "0 < q * p1 / p2" using qp p2pos by simp
  have "\<bar>x1 / p2 - q * p1 / p2\<bar> = \<bar>x1 - q * p1\<bar> / p2"
    using p2pos by (simp add: abs_divide flip: diff_divide_distrib)
  also have "\<dots> \<le> q * p1 * u / p2" using e1 p2pos by (simp add: divide_right_mono)
  finally have e1': "\<bar>x1 / p2 - q * p1 / p2\<bar> \<le> q * p1 / p2 * u" by simp
  have "\<bar>x2 - q * p1 / p2\<bar> \<le> q * p1 / p2 * (u + u + u * u)"
    by (rule near_trans [OF a e1' e2 u(1)])
  also have "\<dots> \<le> q * p1 / p2 * 2 powi (- 51)"
    using a u(3) by (intro mult_left_mono) simp_all
  finally have "\<bar>x2 - q * p1 / p2\<bar> \<le> q * p1 / p2 * 2 powi (- 51)" .
  moreover have "truediv (fmul (Finite s q) (Finite False p1)) (Finite False p2) = Inr (Finite s x2)"
    using p2pos x1 x2 by (simp add: truediv_def)
  ultimately show ?thesis by blast
qed

section \<open>The tables and the linear converters\<close>

lemma fl_lit_in_range:
  assumes "1 / 1000 \<le> x" and "x \<le> 2000"
  shows "scale_in_range (fl_lit x)"
proof -
  have x: "0 < x" using assms(1) by linarith
  have "2 powi (- 1022) \<le> (2::rat) powi (- 10)" by (rule pow2_mono) simp
  moreover have "(2::rat) powi (- 10) \<le> 1 / 1000" by simp
  ultimately have lo: "2 powi (- 1022) \<le> x" using assms(1) by linarith
  have "(2000::rat) \<le> 2 powi 11" by simp
  moreover have "(2::rat) powi 11 \<le> 2 powi 1023" by (rule pow2_mono) simp
  ultimately have hi: "x \<le> 2 powi 1023" using assms(2) by linarith
  obtain r where r: "fl_round False x = Finite False r" and e: "\<bar>r - x\<bar> \<le> x * 2 powi (- 53)"
    using fl_round_rel_error [OF lo hi] by blast
  have "x * 2 powi (- 53) \<le> x * (1 / 51)" using x by (intro mult_left_mono) simp_all
  then have b: "x - x / 51 \<le> r" "r \<le> x + x / 51" using e by (simp, linarith)+
  have "(2::rat) powi (- 10) \<le> 1 / 1000 - (1 / 1000) / 51" by simp
  also have "\<dots> \<le> x - x / 51" using assms(1) by simp
  finally have A: "2 powi (- 10) \<le> r" using b(1) by linarith
  have "r \<le> 2000 + 2000 / 51" using b(2) assms(2) by simp
  also have "\<dots> \<le> (2::rat) powi 11" by simp
  finally have B: "r \<le> 2 powi 11" .
  show ?thesis using x r A B by (simp add: fl_lit_def)
qed

lemma scale_in_rangeE:
  assumes "scale_in_range x"
  obtains p where "x = Finite False p" and "2 powi (- 10) \<le> p" and "p \<le> 2 powi 11" and "0 < p"
proof (cases x)
  case (Finite s p)
  moreover have "0 < p" using assms Finite pow2_pos [of "- 10"] by simp
  ultimately show ?thesis using assms that by simp
qed (use assms in simp_all)

lemma LENGTH_UNITS_in_range: "\<forall>x \<in> set LENGTH_UNITS. scale_in_range (snd x)"
  by (simp add: LENGTH_UNITS_def fl_lit_in_range)

lemma WEIGHT_UNITS_in_range: "\<forall>x \<in> set WEIGHT_UNITS. scale_in_range (snd x)"
  by (simp add: WEIGHT_UNITS_def fl_lit_in_range)

lemma VOLUME_UNITS_in_range: "\<forall>x \<in> set VOLUME_UNITS. scale_in_range (snd x)"
  by (simp add: VOLUME_UNITS_def fl_lit_in_range)

lemma length_scale: "map_of LENGTH_UNITS u = Some x \<Longrightarrow> scale_in_range x"
  using LENGTH_UNITS_in_range map_of_SomeD [of LENGTH_UNITS u x] by fastforce

lemma weight_scale: "map_of WEIGHT_UNITS u = Some x \<Longrightarrow> scale_in_range x"
  using WEIGHT_UNITS_in_range map_of_SomeD [of WEIGHT_UNITS u x] by fastforce

lemma volume_scale: "map_of VOLUME_UNITS u = Some x \<Longrightarrow> scale_in_range x"
  using VOLUME_UNITS_in_range map_of_SomeD [of VOLUME_UNITS u x] by fastforce

lemma truediv_scale: "scale_in_range y \<Longrightarrow> truediv x y = Inr (fdiv x y)"
  by (erule scale_in_rangeE) (simp add: truediv_def)

lemma symbols_LENGTH_UNITS:
  "symbols LENGTH_UNITS = {''mm'', ''cm'', ''m'', ''km'', ''in'', ''ft'', ''yd'', ''mi''}"
  by (simp add: symbols_def LENGTH_UNITS_def)

lemma symbols_WEIGHT_UNITS:
  "symbols WEIGHT_UNITS = {''g'', ''kg'', ''t'', ''oz'', ''lb'', ''st'', ''ton''}"
  by (simp add: symbols_def WEIGHT_UNITS_def)

lemma symbols_VOLUME_UNITS:
  "symbols VOLUME_UNITS = {''ml'', ''l'', ''kl'', ''fl_oz'', ''cup'', ''pt'', ''qt'', ''gal''}"
  by (simp add: symbols_def VOLUME_UNITS_def)

lemma dom_symbols: "dom (map_of table) = symbols table"
  by (simp add: symbols_def dom_map_of_conv_image_fst)

lemma get_category_symbols:
  "get_category u =
     (if lower u \<in> symbols LENGTH_UNITS then Some ''length''
      else if lower u \<in> symbols WEIGHT_UNITS then Some ''weight''
      else if lower u \<in> symbols VOLUME_UNITS then Some ''volume''
      else if lower u \<in> temperature_symbols then Some ''temperature''
      else None)"
  by (simp add: get_category_def dom_symbols temperature_symbols_def Let_def)

lemma convert_length_registered:
  assumes "map_of LENGTH_UNITS u1 = Some s1" and "map_of LENGTH_UNITS u2 = Some s2"
  shows "convert_length v u1 u2 = Inr (fdiv (fmul v s1) s2)"
  using assms by (simp add: convert_length_def truediv_scale [OF length_scale [OF assms(2)]])

lemma convert_weight_registered:
  assumes "map_of WEIGHT_UNITS u1 = Some s1" and "map_of WEIGHT_UNITS u2 = Some s2"
  shows "convert_weight v u1 u2 = Inr (fdiv (fmul v s1) s2)"
  using assms by (simp add: convert_weight_def truediv_scale [OF weight_scale [OF assms(2)]])

lemma convert_volume_registered:
  assumes "map_of VOLUME_UNITS u1 = Some s1" and "map_of VOLUME_UNITS u2 = Some s2"
  shows "convert_volume v u1 u2 = Inr (fdiv (fmul v s1) s2)"
  using assms by (simp add: convert_volume_def truediv_scale [OF volume_scale [OF assms(2)]])

lemma registeredE:
  assumes "u \<in> symbols table" and "\<forall>x \<in> set table. scale_in_range (snd x)"
  obtains p where "map_of table u = Some (Finite False p)"
    and "2 powi (- 10) \<le> p" and "p \<le> 2 powi 11" and "0 < p"
proof -
  from assms(1) have "u \<in> dom (map_of table)" by (simp add: dom_symbols)
  then obtain x where x: "map_of table u = Some x" by blast
  then have "(u, x) \<in> set table" by (rule map_of_SomeD)
  then have "scale_in_range x" using assms(2) by fastforce
  then show ?thesis using x that by (auto elim: scale_in_rangeE)
qed

text \<open>
  Claim C6. For every string \<open>u\<close>, \<open>get_category\<close> lowers \<open>u\<close>, looks for it among the
  Length, then the Weight, then the Volume symbols, then among the six temperature names,
  and answers the category's name; a symbol in no table gives \<open>None\<close>, a value and not an
  exception.
\<close>

theorem get_category_resolves:
  "get_category u =
     (if lower u \<in> {''mm'', ''cm'', ''m'', ''km'', ''in'', ''ft'', ''yd'', ''mi''}
        then Some ''length''
      else if lower u \<in> {''g'', ''kg'', ''t'', ''oz'', ''lb'', ''st'', ''ton''}
        then Some ''weight''
      else if lower u \<in> {''ml'', ''l'', ''kl'', ''fl_oz'', ''cup'', ''pt'', ''qt'', ''gal''}
        then Some ''volume''
      else if lower u \<in> {''c'', ''celsius'', ''f'', ''fahrenheit'', ''k'', ''kelvin''}
        then Some ''temperature''
      else None)"
  unfolding get_category_symbols symbols_LENGTH_UNITS symbols_WEIGHT_UNITS symbols_VOLUME_UNITS
    temperature_symbols_def ..

text \<open>
  Claim C9. The symbols of the Length, Weight and Volume tables and the temperature names
  are pairwise disjoint, so a registered symbol belongs to exactly one category, and every
  scale factor stored in the three tables is a float greater than zero.
\<close>

theorem tables_disjoint_and_positive:
  "symbols LENGTH_UNITS \<inter> symbols WEIGHT_UNITS = {}
   \<and> symbols LENGTH_UNITS \<inter> symbols VOLUME_UNITS = {}
   \<and> symbols LENGTH_UNITS \<inter> temperature_symbols = {}
   \<and> symbols WEIGHT_UNITS \<inter> symbols VOLUME_UNITS = {}
   \<and> symbols WEIGHT_UNITS \<inter> temperature_symbols = {}
   \<and> symbols VOLUME_UNITS \<inter> temperature_symbols = {}
   \<and> list_all positive (map snd (LENGTH_UNITS @ WEIGHT_UNITS @ VOLUME_UNITS))"
proof -
  have pos: "positive x" if "scale_in_range x" for x
    using that by (rule scale_in_rangeE) simp
  have "list_all positive (map snd LENGTH_UNITS)"
    using LENGTH_UNITS_in_range by (auto simp add: list_all_iff intro: pos)
  moreover have "list_all positive (map snd WEIGHT_UNITS)"
    using WEIGHT_UNITS_in_range by (auto simp add: list_all_iff intro: pos)
  moreover have "list_all positive (map snd VOLUME_UNITS)"
    using VOLUME_UNITS_in_range by (auto simp add: list_all_iff intro: pos)
  ultimately show ?thesis
    by (simp add: symbols_LENGTH_UNITS symbols_WEIGHT_UNITS symbols_VOLUME_UNITS
        temperature_symbols_def)
qed

text \<open>
  Claim C1. For every value \<open>v\<close> and symbols \<open>u1\<close>, \<open>u2\<close> registered in the same linear
  table with factors \<open>s1\<close>, \<open>s2\<close>, the table's converter returns \<open>v * s1 / s2\<close>: the float
  product divided, as floats, by the target factor. No exception is raised.
\<close>

theorem linear_conversion_formula:
  "(map_of LENGTH_UNITS u1 = Some s1 \<and> map_of LENGTH_UNITS u2 = Some s2
      \<longrightarrow> convert_length v u1 u2 = Inr (fdiv (fmul v s1) s2))
   \<and> (map_of WEIGHT_UNITS u1 = Some s1 \<and> map_of WEIGHT_UNITS u2 = Some s2
      \<longrightarrow> convert_weight v u1 u2 = Inr (fdiv (fmul v s1) s2))
   \<and> (map_of VOLUME_UNITS u1 = Some s1 \<and> map_of VOLUME_UNITS u2 = Some s2
      \<longrightarrow> convert_volume v u1 u2 = Inr (fdiv (fmul v s1) s2))"
  by (simp add: convert_length_registered convert_weight_registered convert_volume_registered)

theorem linear_conversion_formula_witness:
  "convert_length (Finite False 100) ''km'' ''mi''
     = Inr (fdiv (fmul (Finite False 100) (fl_lit 1000)) (fl_lit (160934 / 100)))
   \<and> convert_weight (Finite False 70) ''kg'' ''lb''
     = Inr (fdiv (fmul (Finite False 70) (fl_lit 1)) (fl_lit (453592 / 1000000)))
   \<and> convert_volume (Finite False 5) ''gal'' ''l''
     = Inr (fdiv (fmul (Finite False 5) (fl_lit (378541 / 100000))) (fl_lit 1))"
proof -
  have "map_of LENGTH_UNITS ''km'' = Some (fl_lit 1000)"
    and "map_of LENGTH_UNITS ''mi'' = Some (fl_lit (160934 / 100))"
    and "map_of WEIGHT_UNITS ''kg'' = Some (fl_lit 1)"
    and "map_of WEIGHT_UNITS ''lb'' = Some (fl_lit (453592 / 1000000))"
    and "map_of VOLUME_UNITS ''gal'' = Some (fl_lit (378541 / 100000))"
    and "map_of VOLUME_UNITS ''l'' = Some (fl_lit 1)"
    by (simp_all add: LENGTH_UNITS_def WEIGHT_UNITS_def VOLUME_UNITS_def)
  then show ?thesis
    using linear_conversion_formula [of "''km''" "fl_lit 1000" "''mi''" "fl_lit (160934 / 100)"
        "Finite False 100"]
      linear_conversion_formula [of "''kg''" "fl_lit 1" "''lb''" "fl_lit (453592 / 1000000)"
        "Finite False 70"]
      linear_conversion_formula [of "''gal''" "fl_lit (378541 / 100000)" "''l''" "fl_lit 1"
        "Finite False 5"]
    by simp
qed

section \<open>Symbols, categories and the command line\<close>

lemma lower_char_idem: "lower_char (lower_char c) = lower_char c"
proof -
  define n where "n = (of_char c :: nat)"
  have n: "n < 256" unfolding n_def by simp
  show ?thesis
  proof (cases "(65 \<le> n \<and> n \<le> 90) \<or> (192 \<le> n \<and> n \<le> 222 \<and> n \<noteq> 215)")
    case True
    then have l: "lower_char c = char_of (n + 32)" by (simp add: lower_char_def n_def Let_def)
    have "(of_char (char_of (n + 32) :: char) :: nat) = n + 32"
      using True by (auto simp add: of_char_of)
    then have "lower_char (char_of (n + 32)) = char_of (n + 32)"
      using True by (auto simp add: lower_char_def Let_def)
    then show ?thesis by (simp add: l)
  next
    case False
    then have "lower_char c = c" unfolding lower_char_def n_def Let_def by (simp only: if_False)
    then show ?thesis by simp
  qed
qed

lemma lower_idem: "lower (lower u) = lower u"
  by (simp add: lower_def lower_char_idem)

lemma get_category_lower: "get_category (lower u) = get_category u"
  by (simp add: get_category_def lower_idem)

lemma lower_examples: "lower ''KM'' = ''km''" "lower ''m'' = ''m''" "lower ''Celsius'' = ''celsius''"
  by (simp_all add: lower_def lower_char_def char_of_def bit_Suc_0_iff)

lemma get_category_examples:
  "get_category ''km'' = Some ''length''" "get_category ''LB'' = Some ''weight''"
  "get_category ''xyz'' = None" "get_category ''Kelvin'' = Some ''temperature''"
  by (simp_all add: get_category_symbols symbols_LENGTH_UNITS symbols_WEIGHT_UNITS
      symbols_VOLUME_UNITS temperature_symbols_def lower_def lower_char_def char_of_def
      bit_Suc_0_iff)

lemma category_lengthD: "get_category u = Some ''length'' \<Longrightarrow> lower u \<in> symbols LENGTH_UNITS"
  by (simp add: get_category_symbols split: if_splits)

lemma category_weightD: "get_category u = Some ''weight'' \<Longrightarrow> lower u \<in> symbols WEIGHT_UNITS"
  by (simp add: get_category_symbols split: if_splits)

lemma category_volumeD: "get_category u = Some ''volume'' \<Longrightarrow> lower u \<in> symbols VOLUME_UNITS"
  by (simp add: get_category_symbols split: if_splits)

lemma convert_length_returns:
  assumes "u1 \<in> symbols LENGTH_UNITS" and "u2 \<in> symbols LENGTH_UNITS"
  shows "\<exists>p r. map_of LENGTH_UNITS u2 = Some (Finite False p) \<and> 0 < p
           \<and> convert_length v u1 u2 = Inr r"
proof -
  obtain p1 where p1: "map_of LENGTH_UNITS u1 = Some (Finite False p1)"
    using assms(1) LENGTH_UNITS_in_range by (rule registeredE)
  obtain p2 where p2: "map_of LENGTH_UNITS u2 = Some (Finite False p2)" "0 < p2"
    using assms(2) LENGTH_UNITS_in_range by (rule registeredE)
  show ?thesis using convert_length_registered [OF p1 p2(1)] p2 by blast
qed

lemma convert_weight_returns:
  assumes "u1 \<in> symbols WEIGHT_UNITS" and "u2 \<in> symbols WEIGHT_UNITS"
  shows "\<exists>p r. map_of WEIGHT_UNITS u2 = Some (Finite False p) \<and> 0 < p
           \<and> convert_weight v u1 u2 = Inr r"
proof -
  obtain p1 where p1: "map_of WEIGHT_UNITS u1 = Some (Finite False p1)"
    using assms(1) WEIGHT_UNITS_in_range by (rule registeredE)
  obtain p2 where p2: "map_of WEIGHT_UNITS u2 = Some (Finite False p2)" "0 < p2"
    using assms(2) WEIGHT_UNITS_in_range by (rule registeredE)
  show ?thesis using convert_weight_registered [OF p1 p2(1)] p2 by blast
qed

lemma convert_volume_returns:
  assumes "u1 \<in> symbols VOLUME_UNITS" and "u2 \<in> symbols VOLUME_UNITS"
  shows "\<exists>p r. map_of VOLUME_UNITS u2 = Some (Finite False p) \<and> 0 < p
           \<and> convert_volume v u1 u2 = Inr r"
proof -
  obtain p1 where p1: "map_of VOLUME_UNITS u1 = Some (Finite False p1)"
    using assms(1) VOLUME_UNITS_in_range by (rule registeredE)
  obtain p2 where p2: "map_of VOLUME_UNITS u2 = Some (Finite False p2)" "0 < p2"
    using assms(2) VOLUME_UNITS_in_range by (rule registeredE)
  show ?thesis using convert_volume_registered [OF p1 p2(1)] p2 by blast
qed

text \<open>
  Claim C10. For every value and every pair of lowercase symbols that \<open>get_category\<close>
  puts in the same linear category, that category's converter raises nothing: both
  membership tests pass, the divisor is the target's table entry, a finite float greater
  than zero, and a float is returned.
\<close>

theorem linear_dispatch_returns:
  "(get_category u1 = Some ''length'' \<and> get_category u2 = Some ''length''
      \<and> lower u1 = u1 \<and> lower u2 = u2
      \<longrightarrow> (\<exists>p r. map_of LENGTH_UNITS u2 = Some (Finite False p) \<and> 0 < p
             \<and> convert_length v u1 u2 = Inr r))
   \<and> (get_category u1 = Some ''weight'' \<and> get_category u2 = Some ''weight''
      \<and> lower u1 = u1 \<and> lower u2 = u2
      \<longrightarrow> (\<exists>p r. map_of WEIGHT_UNITS u2 = Some (Finite False p) \<and> 0 < p
             \<and> convert_weight v u1 u2 = Inr r))
   \<and> (get_category u1 = Some ''volume'' \<and> get_category u2 = Some ''volume''
      \<and> lower u1 = u1 \<and> lower u2 = u2
      \<longrightarrow> (\<exists>p r. map_of VOLUME_UNITS u2 = Some (Finite False p) \<and> 0 < p
             \<and> convert_volume v u1 u2 = Inr r))"
proof (intro conjI impI; elim conjE)
  assume "get_category u1 = Some ''length''" "get_category u2 = Some ''length''"
    "lower u1 = u1" "lower u2 = u2"
  then have "u1 \<in> symbols LENGTH_UNITS" "u2 \<in> symbols LENGTH_UNITS"
    using category_lengthD [of u1] category_lengthD [of u2] by simp_all
  then show "\<exists>p r. map_of LENGTH_UNITS u2 = Some (Finite False p) \<and> 0 < p
      \<and> convert_length v u1 u2 = Inr r"
    by (rule convert_length_returns)
next
  assume "get_category u1 = Some ''weight''" "get_category u2 = Some ''weight''"
    "lower u1 = u1" "lower u2 = u2"
  then have "u1 \<in> symbols WEIGHT_UNITS" "u2 \<in> symbols WEIGHT_UNITS"
    using category_weightD [of u1] category_weightD [of u2] by simp_all
  then show "\<exists>p r. map_of WEIGHT_UNITS u2 = Some (Finite False p) \<and> 0 < p
      \<and> convert_weight v u1 u2 = Inr r"
    by (rule convert_weight_returns)
next
  assume "get_category u1 = Some ''volume''" "get_category u2 = Some ''volume''"
    "lower u1 = u1" "lower u2 = u2"
  then have "u1 \<in> symbols VOLUME_UNITS" "u2 \<in> symbols VOLUME_UNITS"
    using category_volumeD [of u1] category_volumeD [of u2] by simp_all
  then show "\<exists>p r. map_of VOLUME_UNITS u2 = Some (Finite False p) \<and> 0 < p
      \<and> convert_volume v u1 u2 = Inr r"
    by (rule convert_volume_returns)
qed

lemma lower_more_examples:
  "lower ''km'' = ''km''" "lower ''mi'' = ''mi''" "lower ''kg'' = ''kg''" "lower ''lb'' = ''lb''"
  "lower ''gal'' = ''gal''" "lower ''l'' = ''l''"
  by (simp_all add: lower_def lower_char_def)

lemma get_category_more_examples:
  "get_category ''mi'' = Some ''length''"
  "get_category ''kg'' = Some ''weight''" "get_category ''lb'' = Some ''weight''"
  "get_category ''gal'' = Some ''volume''" "get_category ''l'' = Some ''volume''"
  by (simp_all add: get_category_symbols symbols_LENGTH_UNITS symbols_WEIGHT_UNITS
      symbols_VOLUME_UNITS temperature_symbols_def lower_more_examples)

theorem linear_dispatch_returns_witness:
  "(\<exists>p r. map_of LENGTH_UNITS ''mi'' = Some (Finite False p) \<and> 0 < p
       \<and> convert_length (Finite False 100) ''km'' ''mi'' = Inr r)
   \<and> (\<exists>p r. map_of WEIGHT_UNITS ''lb'' = Some (Finite False p) \<and> 0 < p
       \<and> convert_weight (Finite False 70) ''kg'' ''lb'' = Inr r)
   \<and> (\<exists>p r. map_of VOLUME_UNITS ''l'' = Some (Finite False p) \<and> 0 < p
       \<and> convert_volume (Finite False 5) ''gal'' ''l'' = Inr r)"
  using linear_dispatch_returns [of "''km''" "''mi''" "Finite False 100"]
    linear_dispatch_returns [of "''kg''" "''lb''" "Finite False 70"]
    linear_dispatch_returns [of "''gal''" "''l''" "Finite False 5"]
  by (simp add: get_category_examples get_category_more_examples lower_more_examples)

text \<open>
  Claim C5. A request whose source symbol has a category and whose target symbol has
  another category, or none, is answered by the category-mismatch report, which carries
  no number; a source symbol without a category is answered by the unknown-unit report,
  before any converter is called.
\<close>

theorem category_mismatch_reported:
  "(get_category f = Some c \<and> get_category t \<noteq> Some c
      \<longrightarrow> main v f t = Category_mismatch f c t (get_category t)
          \<and> result_of (main v f t) = None)
   \<and> (get_category f = None \<longrightarrow> main v f t = Unknown_unit f)"
  by (auto simp add: main_def)

theorem category_mismatch_reported_witness:
  "main (Finite False 10) ''km'' ''LB'' = Category_mismatch ''km'' ''length'' ''LB'' (Some ''weight'')
   \<and> result_of (main (Finite False 10) ''km'' ''LB'') = None
   \<and> main (Finite False 10) ''km'' ''xyz'' = Category_mismatch ''km'' ''length'' ''xyz'' None
   \<and> main (Finite False 10) ''xyz'' ''km'' = Unknown_unit ''xyz''"
  using category_mismatch_reported [of "''km''" "''length''" "''LB''" "Finite False 10"]
    category_mismatch_reported [of "''km''" "''length''" "''xyz''" "Finite False 10"]
    category_mismatch_reported [of "''xyz''" "''length''" "''km''" "Finite False 10"]
  by (simp add: get_category_examples)

section \<open>Temperature\<close>

lemma fl_lit_exact:
  assumes "2 powi e \<le> x" and "x < 2 powi (e + 1)" and "- 1022 \<le> e" and "e \<le> 1023"
    and "x = of_int m * 2 powi (e - 52)"
  shows "fl_lit x = Finite False x"
proof -
  have x: "0 < x" using assms(1) pow2_pos [of e] by linarith
  have "(2::rat) powi (e + 1) \<le> 2 powi 1024" using assms(4) by (intro pow2_mono) simp
  then have "x < 2 powi 1024" using assms(2) by linarith
  moreover have "\<bar>x - x\<bar> < 2 powi (e - 53)" by (simp add: pow2_pos)
  ultimately have "fl_round False x = Finite False x"
    using fl_round_normal [OF assms(1-3) assms(5)] by blast
  then show ?thesis using x by (simp add: fl_lit_def)
qed

lemma fl_lit_1: "fl_lit 1 = Finite False 1"
  by (rule fl_lit_exact [where e = 0 and m = "2 ^ 52"]) simp_all

lemma fl_lit_5: "fl_lit 5 = Finite False 5"
  by (rule fl_lit_exact [where e = 2 and m = "5 * 2 ^ 50"]) simp_all

lemma fl_lit_9: "fl_lit 9 = Finite False 9"
  by (rule fl_lit_exact [where e = 3 and m = "9 * 2 ^ 49"]) simp_all

lemma fl_lit_32: "fl_lit 32 = Finite False 32"
  by (rule fl_lit_exact [where e = 5 and m = "2 ^ 52"]) simp_all

lemma fl_lit_1000: "fl_lit 1000 = Finite False 1000"
  by (rule fl_lit_exact [where e = 9 and m = "1000 * 2 ^ 43"]) simp_all

lemma fl_lit_27315: "fl_lit (27315 / 100) = Finite False (2402652809016115 / 2 ^ 43)"
proof -
  have "fl_round False (27315 / 100) = Finite False (2402652809016115 / 2 ^ 43)"
    by (rule fl_round_normal [where e = 8 and m = 4805305618032230]) simp_all
  then show ?thesis by (simp add: fl_lit_def)
qed

lemma fl_lit_27315_reduced: "fl_lit (5463 / 20) = Finite False (2402652809016115 / 2 ^ 43)"
  using fl_lit_27315 by simp

lemma fl_round_27315:
  "fl_round s (2402652809016115 / 2 ^ 43) = Finite s (2402652809016115 / 2 ^ 43)"
  by (rule fl_round_normal [where e = 8 and m = 4805305618032230]) simp_all

lemma truediv_5: "truediv x (fl_lit 5) = Inr (fdiv x (fl_lit 5))"
  by (simp add: fl_lit_5 truediv_def)

lemma truediv_9: "truediv x (fl_lit 9) = Inr (fdiv x (fl_lit 9))"
  by (simp add: fl_lit_9 truediv_def)

lemma to_celsius_step:
  "(if u \<in> set [''c'', ''celsius''] then Inr v
    else if u \<in> set [''f'', ''fahrenheit''] then
      truediv (fmul (fsub v (fl_lit 32)) (fl_lit 5)) (fl_lit 9)
    else if u \<in> set [''k'', ''kelvin''] then Inr (fsub v (fl_lit (27315 / 100)))
    else Inl (ValueError (''Unknown temperature unit: '' @ u)))
   = (if u \<in> temperature_symbols then Inr (spec_to_celsius u v)
      else Inl (ValueError (''Unknown temperature unit: '' @ u)))"
  by (simp add: truediv_9 spec_to_celsius_def temperature_symbols_def)

lemma from_celsius_step:
  "(if u \<in> set [''c'', ''celsius''] then Inr x
    else if u \<in> set [''f'', ''fahrenheit''] then
      (case truediv (fmul x (fl_lit 9)) (fl_lit 5) of
         Inl e \<Rightarrow> Inl e
       | Inr y \<Rightarrow> Inr (fadd y (fl_lit 32)))
    else if u \<in> set [''k'', ''kelvin''] then Inr (fadd x (fl_lit (27315 / 100)))
    else Inl (ValueError (''Unknown temperature unit: '' @ u)))
   = (if u \<in> temperature_symbols then Inr (spec_from_celsius u x)
      else Inl (ValueError (''Unknown temperature unit: '' @ u)))"
  by (simp add: truediv_5 spec_from_celsius_def temperature_symbols_def)

lemma convert_temperature_eq:
  "convert_temperature v f t =
     (if lower f \<notin> temperature_symbols
        then Inl (ValueError (''Unknown temperature unit: '' @ lower f))
      else if lower t \<notin> temperature_symbols
        then Inl (ValueError (''Unknown temperature unit: '' @ lower t))
      else Inr (spec_from_celsius (lower t) (spec_to_celsius (lower f) v)))"
  unfolding convert_temperature_def Let_def to_celsius_step from_celsius_step
  by simp

text \<open>
  Claim C7. \<open>convert_temperature\<close> raises exactly when one of its two symbols, lowered, is
  none of the six temperature names; what it raises is the \<open>ValueError\<close> of the first such
  symbol, source before target. The test is made by the converter itself, on the symbols
  it is given.
\<close>

theorem temperature_unknown_unit:
  "isl (convert_temperature v f t)
     = (\<not> (lower f \<in> temperature_symbols \<and> lower t \<in> temperature_symbols))
   \<and> (lower f \<notin> temperature_symbols
      \<longrightarrow> convert_temperature v f t
            = Inl (ValueError (''Unknown temperature unit: '' @ lower f)))
   \<and> (lower f \<in> temperature_symbols \<and> lower t \<notin> temperature_symbols
      \<longrightarrow> convert_temperature v f t
            = Inl (ValueError (''Unknown temperature unit: '' @ lower t)))"
  by (simp add: convert_temperature_eq)

lemma lower_temperature_examples:
  "lower ''C'' = ''c''" "lower ''Q'' = ''q''" "lower ''x'' = ''x''" "lower ''F'' = ''f''"
  "lower ''c'' = ''c''" "lower ''k'' = ''k''" "lower ''K'' = ''k''"
  by (simp_all add: lower_def lower_char_def char_of_def bit_Suc_0_iff)

theorem temperature_unknown_unit_witness:
  "convert_temperature (Finite False 1) ''x'' ''C''
     = Inl (ValueError ''Unknown temperature unit: x'')
   \<and> convert_temperature (Finite False 1) ''C'' ''Q''
     = Inl (ValueError ''Unknown temperature unit: q'')
   \<and> \<not> isl (convert_temperature (Finite False 1) ''C'' ''K'')"
  using temperature_unknown_unit [of "Finite False 1" "''x''" "''C''"]
    temperature_unknown_unit [of "Finite False 1" "''C''" "''Q''"]
    temperature_unknown_unit [of "Finite False 1" "''C''" "''K''"]
  by (simp add: lower_temperature_examples temperature_symbols_def)

text \<open>
  Claim C2. For every value and every pair of recognised temperature symbols, whatever
  their case, \<open>convert_temperature\<close> returns the result of the two steps through Celsius:
  first \<open>v\<close>, \<open>(v - 32) * 5 / 9\<close> or \<open>v - 273.15\<close>, then \<open>celsius\<close>, \<open>celsius * 9 / 5 + 32\<close>
  or \<open>celsius + 273.15\<close>, in float arithmetic.
\<close>

theorem temperature_two_steps:
  "lower f \<in> temperature_symbols \<and> lower t \<in> temperature_symbols
     \<longrightarrow> convert_temperature v f t
           = Inr (spec_from_celsius (lower t) (spec_to_celsius (lower f) v))"
  by (simp add: convert_temperature_eq)

theorem temperature_two_steps_witness:
  "convert_temperature (Finite False 32) ''F'' ''c'' = Inr (Finite False 0)
   \<and> convert_temperature (Finite False 0) ''c'' ''K'' = Inr (fl_lit (27315 / 100))"
proof -
  have z: "fl_round s 0 = Finite s 0" for s by (simp add: fl_round_def)
  have "spec_from_celsius ''c'' (spec_to_celsius ''f'' (Finite False 32)) = Finite False 0"
    by (simp add: spec_from_celsius_def spec_to_celsius_def fl_lit_32 fl_lit_5 fl_lit_9
        fsub_def signed_def z)
  moreover have "spec_from_celsius ''k'' (spec_to_celsius ''c'' (Finite False 0))
      = fl_lit (27315 / 100)"
    using fl_round_27315 [of False]
    by (simp add: spec_from_celsius_def spec_to_celsius_def signed_def fl_lit_27315_reduced)
  ultimately show ?thesis
    using temperature_two_steps [of "''F''" "''c''" "Finite False 32"]
      temperature_two_steps [of "''c''" "''K''" "Finite False 0"]
    by (simp add: lower_temperature_examples temperature_symbols_def)
qed

lemma convert_temperature_lower:
  "convert_temperature v (lower f) (lower t) = convert_temperature v f t"
  by (simp add: convert_temperature_eq lower_idem)

text \<open>
  Claim C8, as stated, fails: the three linear converters match the symbol they are given
  against the table as it is written, so \<open>KM\<close> is unknown to \<open>convert_length\<close> while its
  lowercase form converts.
\<close>

theorem convert_length_case_sensitive:
  "convert_length (Finite False 1) ''KM'' ''m'' = Inl (ValueError ''Unknown length unit: KM'')
   \<and> convert_length (Finite False 1) (lower ''KM'') (lower ''m'') = Inr (Finite False 1000)"
proof -
  have "fl_round False 1000 = Finite False 1000" using fl_lit_1000 by (simp add: fl_lit_def)
  then show ?thesis
    by (simp add: convert_length_def LENGTH_UNITS_def lower_examples fl_lit_1000 fl_lit_1
        truediv_def)
qed

lemma unregistered_raises:
  "u \<notin> symbols LENGTH_UNITS
     \<Longrightarrow> convert_length v u t = Inl (ValueError (''Unknown length unit: '' @ u))"
  "u \<notin> symbols WEIGHT_UNITS
     \<Longrightarrow> convert_weight v u t = Inl (ValueError (''Unknown weight unit: '' @ u))"
  "u \<notin> symbols VOLUME_UNITS
     \<Longrightarrow> convert_volume v u t = Inl (ValueError (''Unknown volume unit: '' @ u))"
proof -
  have none: "map_of table u = None" if "u \<notin> symbols table" for table
    using that by (simp add: domIff flip: dom_symbols)
  show "u \<notin> symbols LENGTH_UNITS
      \<Longrightarrow> convert_length v u t = Inl (ValueError (''Unknown length unit: '' @ u))"
    by (simp add: convert_length_def none)
  show "u \<notin> symbols WEIGHT_UNITS
      \<Longrightarrow> convert_weight v u t = Inl (ValueError (''Unknown weight unit: '' @ u))"
    by (simp add: convert_weight_def none)
  show "u \<notin> symbols VOLUME_UNITS
      \<Longrightarrow> convert_volume v u t = Inl (ValueError (''Unknown volume unit: '' @ u))"
    by (simp add: convert_volume_def none)
qed

text \<open>
  Claim C8, amended. Matching is case-insensitive where the program lowers the symbol:
  in \<open>get_category\<close>, in \<open>convert_temperature\<close>, and in \<open>main\<close>, which lowers both symbols
  before it calls a linear converter. There a symbol and its lowercase form have the same
  category, the same temperature conversion and the same converted number. The linear
  converters themselves match the symbol as it is given: a source symbol that is not
  literally a key of the table is unknown to them.
\<close>

theorem lowered_symbols_agree:
  "get_category (lower u) = get_category u
   \<and> convert_temperature v (lower f) (lower t) = convert_temperature v f t
   \<and> result_of (main v (lower f) (lower t)) = result_of (main v f t)
   \<and> (u \<notin> symbols LENGTH_UNITS
      \<longrightarrow> convert_length v u t = Inl (ValueError (''Unknown length unit: '' @ u)))
   \<and> (u \<notin> symbols WEIGHT_UNITS
      \<longrightarrow> convert_weight v u t = Inl (ValueError (''Unknown weight unit: '' @ u)))
   \<and> (u \<notin> symbols VOLUME_UNITS
      \<longrightarrow> convert_volume v u t = Inl (ValueError (''Unknown volume unit: '' @ u)))"
proof -
  have "result_of (main v (lower f) (lower t)) = result_of (main v f t)"
    unfolding main_def get_category_lower lower_idem convert_temperature_lower
    by (simp split: option.splits sum.splits error.splits)
  then show ?thesis
    by (simp add: get_category_lower convert_temperature_lower unregistered_raises)
qed

theorem lowered_symbols_agree_witness:
  "get_category (lower ''KM'') = get_category ''KM''
   \<and> convert_temperature (Finite False 1) (lower ''C'') (lower ''K'')
       = convert_temperature (Finite False 1) ''C'' ''K''
   \<and> result_of (main (Finite False 1) (lower ''C'') (lower ''K''))
       = result_of (main (Finite False 1) ''C'' ''K'')
   \<and> convert_length (Finite False 1) ''KM'' ''K'' = Inl (ValueError ''Unknown length unit: KM'')
   \<and> convert_weight (Finite False 1) ''KM'' ''K'' = Inl (ValueError ''Unknown weight unit: KM'')
   \<and> convert_volume (Finite False 1) ''KM'' ''K'' = Inl (ValueError ''Unknown volume unit: KM'')"
  using lowered_symbols_agree [of "''KM''" "Finite False 1" "''C''" "''K''"]
  by (simp add: symbols_LENGTH_UNITS symbols_WEIGHT_UNITS symbols_VOLUME_UNITS)

section \<open>The converters return floats\<close>

lemma table_entries_float64:
  "\<forall>x \<in> set LENGTH_UNITS. is_float64 (snd x)"
  "\<forall>x \<in> set WEIGHT_UNITS. is_float64 (snd x)"
  "\<forall>x \<in> set VOLUME_UNITS. is_float64 (snd x)"
  by (simp_all only: LENGTH_UNITS_def WEIGHT_UNITS_def VOLUME_UNITS_def list.set ball_simps
      snd_conv is_float64_fl_lit simp_thms)

lemma registered_float64:
  assumes "map_of table u = Some x" and "\<forall>x \<in> set table. is_float64 (snd x)"
  shows "is_float64 x"
  using assms map_of_SomeD [of table u x] by fastforce

lemma truediv_float64:
  assumes "is_float64 x" and "is_float64 y" and "truediv x y = Inr r"
  shows "is_float64 r"
proof -
  have "r = fdiv x y" using assms(3) by (auto simp add: truediv_def split: float64.splits if_splits)
  then show ?thesis using assms(1,2) by (simp add: is_float64_fdiv)
qed

lemma convert_length_float64:
  assumes "is_float64 v" and "convert_length v u1 u2 = Inr r"
  shows "is_float64 r"
proof -
  obtain s1 s2 where s: "map_of LENGTH_UNITS u1 = Some s1" "map_of LENGTH_UNITS u2 = Some s2"
    using assms(2) by (auto simp add: convert_length_def split: option.splits)
  have "is_float64 s1" "is_float64 s2"
    by (rule registered_float64 [OF s(1) table_entries_float64(1)],
        rule registered_float64 [OF s(2) table_entries_float64(1)])
  moreover have "r = fdiv (fmul v s1) s2"
    using assms(2) convert_length_registered [OF s] by simp
  ultimately show ?thesis using assms(1) by (simp add: is_float64_fdiv is_float64_fmul)
qed

lemma convert_weight_float64:
  assumes "is_float64 v" and "convert_weight v u1 u2 = Inr r"
  shows "is_float64 r"
proof -
  obtain s1 s2 where s: "map_of WEIGHT_UNITS u1 = Some s1" "map_of WEIGHT_UNITS u2 = Some s2"
    using assms(2) by (auto simp add: convert_weight_def split: option.splits)
  have "is_float64 s1" "is_float64 s2"
    by (rule registered_float64 [OF s(1) table_entries_float64(2)],
        rule registered_float64 [OF s(2) table_entries_float64(2)])
  moreover have "r = fdiv (fmul v s1) s2"
    using assms(2) convert_weight_registered [OF s] by simp
  ultimately show ?thesis using assms(1) by (simp add: is_float64_fdiv is_float64_fmul)
qed

lemma convert_volume_float64:
  assumes "is_float64 v" and "convert_volume v u1 u2 = Inr r"
  shows "is_float64 r"
proof -
  obtain s1 s2 where s: "map_of VOLUME_UNITS u1 = Some s1" "map_of VOLUME_UNITS u2 = Some s2"
    using assms(2) by (auto simp add: convert_volume_def split: option.splits)
  have "is_float64 s1" "is_float64 s2"
    by (rule registered_float64 [OF s(1) table_entries_float64(3)],
        rule registered_float64 [OF s(2) table_entries_float64(3)])
  moreover have "r = fdiv (fmul v s1) s2"
    using assms(2) convert_volume_registered [OF s] by simp
  ultimately show ?thesis using assms(1) by (simp add: is_float64_fdiv is_float64_fmul)
qed

lemma convert_temperature_float64:
  assumes "is_float64 v" and "convert_temperature v f t = Inr r"
  shows "is_float64 r"
proof -
  have "r = spec_from_celsius (lower t) (spec_to_celsius (lower f) v)"
    using assms(2) by (simp add: convert_temperature_eq split: if_splits)
  moreover have "is_float64 (spec_to_celsius (lower f) v)"
    using assms(1)
    by (simp add: spec_to_celsius_def is_float64_fdiv is_float64_fmul is_float64_fsub
        is_float64_fl_lit)
  ultimately show ?thesis
    by (simp add: spec_from_celsius_def is_float64_fdiv is_float64_fmul is_float64_fadd
        is_float64_fl_lit)
qed

section \<open>Round trips and identity conversions\<close>

lemma fdiv_positive:
  assumes "0 < p"
  shows "truediv x (Finite False p) = Inr (fdiv x (Finite False p))"
  using assms by (simp add: truediv_def)

lemma decimal_range:
  fixes q :: rat
  assumes "1 / 10 ^ 300 \<le> q" and "q \<le> 10 ^ 300"
  shows "2 powi (- 999) \<le> q" and "q \<le> 2 powi 999"
proof -
  have "(2::rat) powi (- 999) \<le> 1 / 10 ^ 300" by simp
  then show "2 powi (- 999) \<le> q" using assms(1) by linarith
  have "(10::rat) ^ 300 \<le> 2 powi 999" by simp
  then show "q \<le> 2 powi 999" using assms(2) by linarith
qed

lemma scaled_range:
  fixes q p :: rat
  assumes q: "2 powi (- 999) \<le> q" "q \<le> 2 powi 999"
    and p: "2 powi (- 10) \<le> p" "p \<le> 2 powi 11"
  shows "2 powi (- 1009) \<le> q * p" and "q * p \<le> 2 powi 1010"
proof -
  have q0: "0 \<le> q" using q(1) pow2_pos [of "- 999"] by linarith
  have p0: "0 \<le> p" using p(1) pow2_pos [of "- 10"] by linarith
  have "(2::rat) powi (- 1009) = 2 powi (- 999) * 2 powi (- 10)" by simp
  also have "\<dots> \<le> q * p" using q(1) p(1) by (intro mult_mono) simp_all
  finally show "2 powi (- 1009) \<le> q * p" .
  have "q * p \<le> 2 powi 999 * 2 powi 11" using q(2) p(2) q0 p0 by (intro mult_mono) simp_all
  also have "\<dots> = (2::rat) powi 1010" by simp
  finally show "q * p \<le> 2 powi 1010" .
qed

lemma identity_error:
  assumes p: "2 powi (- 10) \<le> p" "p \<le> 2 powi 11"
    and q: "2 powi (- 999) \<le> q" "q \<le> 2 powi 999"
  shows "\<exists>r. fdiv (fmul (Finite s q) (Finite False p)) (Finite False p) = Finite s r
           \<and> \<bar>r - q\<bar> \<le> q * 2 powi (- 51)"
proof -
  have p0: "0 < p" using p(1) pow2_pos [of "- 10"] by linarith
  note qp = scaled_range [OF q p]
  have "2 powi (- 1010) \<le> q * p"
    using qp(1) pow2_mono [of "- 1010" "- 1009"] by simp
  moreover have "q * p \<le> 2 powi 1011"
    using qp(2) pow2_mono [of 1010 1011] by simp
  ultimately obtain r
    where "truediv (fmul (Finite s q) (Finite False p)) (Finite False p) = Inr (Finite s r)"
      and "\<bar>r - q * p / p\<bar> \<le> (q * p / p) * 2 powi (- 51)"
    using mul_div_error [OF p0 p] by blast
  then show ?thesis using p0 by (auto simp add: fdiv_positive)
qed

lemma round_trip_error:
  assumes p1: "2 powi (- 10) \<le> p1" "p1 \<le> 2 powi 11"
    and p2: "2 powi (- 10) \<le> p2" "p2 \<le> 2 powi 11"
    and q: "2 powi (- 999) \<le> q" "q \<le> 2 powi 999"
  shows "\<exists>r1 r2. fdiv (fmul (Finite s q) (Finite False p1)) (Finite False p2) = Finite s r1
           \<and> fdiv (fmul (Finite s r1) (Finite False p2)) (Finite False p1) = Finite s r2
           \<and> \<bar>r2 - q\<bar> \<le> q / 10 ^ 6"
proof -
  define D :: rat where "D = 2 powi (- 51)"
  have D: "0 \<le> D" "D \<le> 1 / 2" "D + D + D * D \<le> 1 / 10 ^ 6" by (simp_all add: D_def)
  have p10: "0 < p1" using p1(1) pow2_pos [of "- 10"] by linarith
  have p20: "0 < p2" using p2(1) pow2_pos [of "- 10"] by linarith
  have q0: "0 < q" using q(1) pow2_pos [of "- 999"] by linarith
  have qp0: "0 < q * p1" using q0 p10 by simp
  note qp = scaled_range [OF q p1]
  have lo1: "2 powi (- 1010) \<le> q * p1"
    using qp(1) pow2_mono [of "- 1010" "- 1009"] by simp
  have hi1: "q * p1 \<le> 2 powi 1011"
    using qp(2) pow2_mono [of 1010 1011] by simp
  obtain r1
    where c1: "truediv (fmul (Finite s q) (Finite False p1)) (Finite False p2) = Inr (Finite s r1)"
      and e1: "\<bar>r1 - q * p1 / p2\<bar> \<le> (q * p1 / p2) * D"
    unfolding D_def using mul_div_error [OF p10 p2 lo1 hi1] by blast
  have "\<bar>r1 * p2 - q * p1\<bar> = \<bar>r1 - q * p1 / p2\<bar> * p2"
    using p20 by (simp add: abs_mult_pos' field_simps)
  also have "\<dots> \<le> (q * p1 / p2) * D * p2" using e1 p20 by (intro mult_right_mono) simp_all
  also have "\<dots> = q * p1 * D" using p20 by simp
  finally have e1': "\<bar>r1 * p2 - q * p1\<bar> \<le> q * p1 * D" .
  note b = near_half [OF qp0 e1' D(2)]
  have "(2::rat) powi (- 1010) = 2 powi (- 1009) / 2" by simp
  also have "\<dots> \<le> q * p1 / 2" using qp(1) by simp
  finally have lo2: "2 powi (- 1010) \<le> r1 * p2" using b(1) by linarith
  have "r1 * p2 \<le> 2 * 2 powi 1010" using b(2) qp(2) by linarith
  also have "\<dots> = (2::rat) powi 1011" by simp
  finally have hi2: "r1 * p2 \<le> 2 powi 1011" .
  obtain r2
    where c2: "truediv (fmul (Finite s r1) (Finite False p2)) (Finite False p1) = Inr (Finite s r2)"
      and e2: "\<bar>r2 - r1 * p2 / p1\<bar> \<le> (r1 * p2 / p1) * D"
    unfolding D_def using mul_div_error [OF p20 p1 lo2 hi2] by blast
  have "\<bar>r1 * p2 / p1 - q\<bar> = \<bar>r1 * p2 - q * p1\<bar> / p1"
    using p10 by (simp add: abs_divide field_simps)
  also have "\<dots> \<le> q * p1 * D / p1" using divide_right_mono [OF e1', of p1] p10 by simp
  also have "\<dots> = q * D" using p10 by simp
  finally have e3: "\<bar>r1 * p2 / p1 - q\<bar> \<le> q * D" .
  have "\<bar>r2 - q\<bar> \<le> q * (D + D + D * D)" by (rule near_trans [OF q0 e3 e2 D(1)])
  also have "\<dots> \<le> q * (1 / 10 ^ 6)" using q0 D(3) by (intro mult_left_mono) simp_all
  finally have "\<bar>r2 - q\<bar> \<le> q / 10 ^ 6" by simp
  then show ?thesis using c1 c2 p10 p20 by (auto simp add: fdiv_positive)
qed

lemma table_round_trip:
  assumes conv: "\<And>v u1 s1 u2 s2. map_of table u1 = Some s1 \<Longrightarrow> map_of table u2 = Some s2
      \<Longrightarrow> conv v u1 u2 = Inr (fdiv (fmul v s1) s2)"
    and range: "\<forall>x \<in> set table. scale_in_range (snd x)"
    and u: "u1 \<in> symbols table" "u2 \<in> symbols table"
    and q: "1 / 10 ^ 300 \<le> q" "q \<le> 10 ^ 300"
  shows "\<exists>y r. conv (Finite s q) u1 u2 = Inr y \<and> conv y u2 u1 = Inr (Finite s r)
           \<and> \<bar>r - q\<bar> \<le> q / 10 ^ 6"
proof -
  obtain p1 where p1: "map_of table u1 = Some (Finite False p1)"
    "2 powi (- 10) \<le> p1" "p1 \<le> 2 powi 11"
    using u(1) range by (rule registeredE)
  obtain p2 where p2: "map_of table u2 = Some (Finite False p2)"
    "2 powi (- 10) \<le> p2" "p2 \<le> 2 powi 11"
    using u(2) range by (rule registeredE)
  obtain r1 r2
    where "fdiv (fmul (Finite s q) (Finite False p1)) (Finite False p2) = Finite s r1"
      and "fdiv (fmul (Finite s r1) (Finite False p2)) (Finite False p1) = Finite s r2"
      and "\<bar>r2 - q\<bar> \<le> q / 10 ^ 6"
    using round_trip_error [OF p1(2,3) p2(2,3) decimal_range [OF q]] by blast
  then show ?thesis
    using conv [OF p1(1) p2(1)] conv [OF p2(1) p1(1)] by auto
qed

lemma table_identity:
  assumes conv: "\<And>v u1 s1 u2 s2. map_of table u1 = Some s1 \<Longrightarrow> map_of table u2 = Some s2
      \<Longrightarrow> conv v u1 u2 = Inr (fdiv (fmul v s1) s2)"
    and range: "\<forall>x \<in> set table. scale_in_range (snd x)"
    and u: "u \<in> symbols table"
    and q: "1 / 10 ^ 300 \<le> q" "q \<le> 10 ^ 300"
  shows "\<exists>r. conv (Finite s q) u u = Inr (Finite s r) \<and> \<bar>r - q\<bar> \<le> q * 2 powi (- 51)"
proof -
  obtain p where p: "map_of table u = Some (Finite False p)"
    "2 powi (- 10) \<le> p" "p \<le> 2 powi 11"
    using u range by (rule registeredE)
  show ?thesis
    using identity_error [OF p(2,3) decimal_range [OF q], of s] conv [OF p(1) p(1)] by auto
qed

text \<open>
  Claim C3, as stated, fails for large values: the product with the source factor
  overflows. \<open>2\<^sup>1\<^sup>0\<^sup>2\<^sup>3\<close> (about \<open>8.99e307\<close>) is a positive float; from kilometres to
  millimetres it becomes \<open>inf\<close>, and \<open>inf\<close> converted back is \<open>inf\<close>.
\<close>

theorem round_trip_overflows:
  "is_float64 (Finite False (2 ^ 1023))
   \<and> convert_length (Finite False (2 ^ 1023)) ''km'' ''mm'' = Inr (Infinity False)
   \<and> convert_length (Infinity False) ''mm'' ''km'' = Inr (Infinity False)"
proof -
  have "ulp (2 ^ 1023) = 2 powi (1023 - 52)"
    by (rule ulp_normal) simp_all
  then have A: "is_float64 (Finite False (2 ^ 1023))" by simp
  have "''mm'' \<in> symbols LENGTH_UNITS" by (simp add: symbols_LENGTH_UNITS)
  then obtain p where p: "map_of LENGTH_UNITS ''mm'' = Some (Finite False p)" "0 < p"
    using LENGTH_UNITS_in_range by (rule registeredE)
  have km: "map_of LENGTH_UNITS ''km'' = Some (Finite False 1000)"
    by (simp add: LENGTH_UNITS_def fl_lit_1000)
  have "fl_round False (2 ^ 1023 * 1000) = Infinity False"
    by (rule fl_round_overflow) simp
  then have "fmul (Finite False (2 ^ 1023)) (Finite False 1000) = Infinity False" by simp
  then have B: "convert_length (Finite False (2 ^ 1023)) ''km'' ''mm'' = Inr (Infinity False)"
    using p by (simp add: convert_length_registered [OF km p(1)])
  have C: "convert_length (Infinity False) ''mm'' ''km'' = Inr (Infinity False)"
    using p by (simp add: convert_length_registered [OF p(1) km])
  show ?thesis using A B C by simp
qed

text \<open>
  Claim C3, amended. For symbols \<open>u1\<close>, \<open>u2\<close> registered in the same linear table and a
  value \<open>V\<close> with \<open>1e-300 \<le> V \<le> 1e300\<close>, converting \<open>V\<close> from \<open>u1\<close> to \<open>u2\<close> and the result
  back from \<open>u2\<close> to \<open>u1\<close> raises nothing and yields a finite float within \<open>1e-6\<close>
  relative tolerance of \<open>V\<close>. (The bound holds for every rational \<open>V\<close> in the range, so
  for every float there.)
\<close>

theorem round_trip_within_tolerance:
  "1 / 10 ^ 300 \<le> q \<and> q \<le> 10 ^ 300 \<longrightarrow>
     (u1 \<in> symbols LENGTH_UNITS \<and> u2 \<in> symbols LENGTH_UNITS \<longrightarrow>
        (\<exists>y r. convert_length (Finite False q) u1 u2 = Inr y
           \<and> convert_length y u2 u1 = Inr (Finite False r) \<and> \<bar>r - q\<bar> \<le> q / 10 ^ 6))
     \<and> (u1 \<in> symbols WEIGHT_UNITS \<and> u2 \<in> symbols WEIGHT_UNITS \<longrightarrow>
        (\<exists>y r. convert_weight (Finite False q) u1 u2 = Inr y
           \<and> convert_weight y u2 u1 = Inr (Finite False r) \<and> \<bar>r - q\<bar> \<le> q / 10 ^ 6))
     \<and> (u1 \<in> symbols VOLUME_UNITS \<and> u2 \<in> symbols VOLUME_UNITS \<longrightarrow>
        (\<exists>y r. convert_volume (Finite False q) u1 u2 = Inr y
           \<and> convert_volume y u2 u1 = Inr (Finite False r) \<and> \<bar>r - q\<bar> \<le> q / 10 ^ 6))"
proof (intro impI conjI; elim conjE)
  assume q: "1 / 10 ^ 300 \<le> q" "q \<le> 10 ^ 300"
  {
    assume "u1 \<in> symbols LENGTH_UNITS" "u2 \<in> symbols LENGTH_UNITS"
    then show "\<exists>y r. convert_length (Finite False q) u1 u2 = Inr y
        \<and> convert_length y u2 u1 = Inr (Finite False r) \<and> \<bar>r - q\<bar> \<le> q / 10 ^ 6"
      using q by (intro table_round_trip [OF convert_length_registered LENGTH_UNITS_in_range])
  next
    assume "u1 \<in> symbols WEIGHT_UNITS" "u2 \<in> symbols WEIGHT_UNITS"
    then show "\<exists>y r. convert_weight (Finite False q) u1 u2 = Inr y
        \<and> convert_weight y u2 u1 = Inr (Finite False r) \<and> \<bar>r - q\<bar> \<le> q / 10 ^ 6"
      using q by (intro table_round_trip [OF convert_weight_registered WEIGHT_UNITS_in_range])
  next
    assume "u1 \<in> symbols VOLUME_UNITS" "u2 \<in> symbols VOLUME_UNITS"
    then show "\<exists>y r. convert_volume (Finite False q) u1 u2 = Inr y
        \<and> convert_volume y u2 u1 = Inr (Finite False r) \<and> \<bar>r - q\<bar> \<le> q / 10 ^ 6"
      using q by (intro table_round_trip [OF convert_volume_registered VOLUME_UNITS_in_range])
  }
qed

theorem round_trip_within_tolerance_witness:
  "(\<exists>y r. convert_length (Finite False 100) ''km'' ''mi'' = Inr y
       \<and> convert_length y ''mi'' ''km'' = Inr (Finite False r) \<and> \<bar>r - 100\<bar> \<le> 100 / 10 ^ 6)
   \<and> (\<exists>y r. convert_weight (Finite False 70) ''kg'' ''lb'' = Inr y
       \<and> convert_weight y ''lb'' ''kg'' = Inr (Finite False r) \<and> \<bar>r - 70\<bar> \<le> 70 / 10 ^ 6)
   \<and> (\<exists>y r. convert_volume (Finite False 5) ''gal'' ''l'' = Inr y
       \<and> convert_volume y ''l'' ''gal'' = Inr (Finite False r) \<and> \<bar>r - 5\<bar> \<le> 5 / 10 ^ 6)"
  using round_trip_within_tolerance [of 100 "''km''" "''mi''"]
    round_trip_within_tolerance [of 70 "''kg''" "''lb''"]
    round_trip_within_tolerance [of 5 "''gal''" "''l''"]
  by (simp add: symbols_LENGTH_UNITS symbols_WEIGHT_UNITS symbols_VOLUME_UNITS)

lemma fmul_one: "is_float64 v \<Longrightarrow> fmul v (Finite False 1) = v"
  by (cases v) (simp_all add: fl_round_exact)

lemma fdiv_one: "is_float64 v \<Longrightarrow> fdiv v (Finite False 1) = v"
  by (cases v) (simp_all add: fl_round_exact)

lemma base_units:
  "map_of LENGTH_UNITS ''m'' = Some (Finite False 1)"
  "map_of WEIGHT_UNITS ''kg'' = Some (Finite False 1)"
  "map_of VOLUME_UNITS ''l'' = Some (Finite False 1)"
  by (simp_all add: LENGTH_UNITS_def WEIGHT_UNITS_def VOLUME_UNITS_def fl_lit_1)

lemma is_float64_examples:
  "is_float64 (Finite False 5)" "is_float64 (Finite False 7)"
  "is_float64 (Finite False (3602879701896397 / 2 ^ 55))"
proof -
  have a: "ulp 5 = 2 powi (2 - 52)" by (rule ulp_normal) simp_all
  show "is_float64 (Finite False 5)" by (simp add: a)
  have b: "ulp 7 = 2 powi (2 - 52)" by (rule ulp_normal) simp_all
  show "is_float64 (Finite False 7)" by (simp add: b)
  have c: "ulp (3602879701896397 / 36028797018963968) = 2 powi (- 4 - 52)"
    by (rule ulp_normal) simp_all
  show "is_float64 (Finite False (3602879701896397 / 2 ^ 55))" by (simp add: c)
qed

text \<open>
  Claim C4, as stated, fails: a conversion to the same unit still multiplies and divides
  by the unit's factor, or goes through Celsius and back, and each operation rounds.
  \<open>7 cm\<close> to \<open>cm\<close> gives \<open>7.000000000000001\<close>, and \<open>0.1 K\<close> (the float nearest to one
  tenth) to \<open>K\<close> gives \<open>0.10000000000002274\<close>.
\<close>

theorem identity_not_exact:
  "is_float64 (Finite False 7)
   \<and> convert_length (Finite False 7) ''cm'' ''cm'' = Inr (Finite False (7 + 1 / 2 ^ 50))
   \<and> is_float64 (Finite False (3602879701896397 / 2 ^ 55))
   \<and> convert_temperature (Finite False (3602879701896397 / 2 ^ 55)) ''k'' ''k''
       = Inr (Finite False (879609302221 / 2 ^ 43))"
proof -
  have "fl_round False (1 / 100) = Finite False (5764607523034235 / 2 ^ 59)"
    by (rule fl_round_normal [where e = "- 7" and m = 5764607523034235]) simp_all
  then have cm: "map_of LENGTH_UNITS ''cm'' = Some (Finite False (5764607523034235 / 2 ^ 59))"
    by (simp add: LENGTH_UNITS_def fl_lit_def)
  have "fl_round False (7 * (5764607523034235 / 2 ^ 59)) = Finite False (1261007895663739 / 2 ^ 54)"
    by (rule fl_round_normal [where e = "- 4" and m = 5044031582654956]) simp_all
  then have m1: "fmul (Finite False 7) (Finite False (5764607523034235 / 2 ^ 59))
      = Finite False (1261007895663739 / 2 ^ 54)"
    by simp
  have "fl_round False ((1261007895663739 / 2 ^ 54) / (5764607523034235 / 2 ^ 59))
      = Finite False (7 + 1 / 2 ^ 50)"
    by (rule fl_round_normal [where e = 2 and m = 7881299347898369]) simp_all
  then have d1: "fdiv (Finite False (1261007895663739 / 2 ^ 54))
      (Finite False (5764607523034235 / 2 ^ 59)) = Finite False (7 + 1 / 2 ^ 50)"
    by simp
  have A: "convert_length (Finite False 7) ''cm'' ''cm'' = Inr (Finite False (7 + 1 / 2 ^ 50))"
    unfolding convert_length_registered [OF cm cm] m1 d1 ..
  have "fl_round True (2402652809016115 / 2 ^ 43 - 3602879701896397 / 2 ^ 55)
      = Finite True (1200886599856947 / 2 ^ 42)"
    by (rule fl_round_normal [where e = 8 and m = 4803546399427788]) simp_all
  then have s1: "fsub (Finite False (3602879701896397 / 2 ^ 55))
      (Finite False (2402652809016115 / 2 ^ 43)) = Finite True (1200886599856947 / 2 ^ 42)"
    by (simp add: fsub_def signed_def)
  have "fl_round False (2402652809016115 / 2 ^ 43 - 1200886599856947 / 2 ^ 42)
      = Finite False (879609302221 / 2 ^ 43)"
    by (rule fl_round_normal [where e = "- 4" and m = 7205759403794432]) simp_all
  then have a1: "fadd (Finite True (1200886599856947 / 2 ^ 42))
      (Finite False (2402652809016115 / 2 ^ 43)) = Finite False (879609302221 / 2 ^ 43)"
    by (simp add: signed_def)
  have B: "convert_temperature (Finite False (3602879701896397 / 2 ^ 55)) ''k'' ''k''
      = Inr (Finite False (879609302221 / 2 ^ 43))"
    unfolding convert_temperature_eq lower_temperature_examples
    by (simp add: temperature_symbols_def spec_to_celsius_def spec_from_celsius_def
        fl_lit_27315_reduced s1 [simplified] a1 [simplified])
  show ?thesis using A B is_float64_examples by simp
qed

text \<open>
  Claim C4, amended. Converting \<open>v\<close> from \<open>u\<close> to \<open>u\<close> returns \<open>v\<close> exactly when \<open>u\<close> is the
  base unit of a linear table (\<open>m\<close>, \<open>kg\<close>, \<open>l\<close>, of factor \<open>1.0\<close>) or a Celsius name. For
  any other registered linear unit the result is the float \<open>(v * s) / s\<close>, which for
  \<open>1e-300 \<le> |v| \<le> 1e300\<close> is finite, of the sign of \<open>v\<close> and within relative error
  \<open>2\<^sup>-\<^sup>5\<^sup>1\<close> of \<open>v\<close>. For a Fahrenheit or a Kelvin name the result is the float
  \<open>((v - 32) * 5 / 9) * 9 / 5 + 32\<close> or \<open>(v - 273.15) + 273.15\<close>.
\<close>

theorem identity_conversion:
  "(is_float64 v \<longrightarrow>
      convert_length v ''m'' ''m'' = Inr v \<and> convert_weight v ''kg'' ''kg'' = Inr v
      \<and> convert_volume v ''l'' ''l'' = Inr v)
   \<and> (lower u \<in> {''c'', ''celsius''} \<longrightarrow> convert_temperature v u u = Inr v)
   \<and> (1 / 10 ^ 300 \<le> q \<and> q \<le> 10 ^ 300 \<longrightarrow>
        (u \<in> symbols LENGTH_UNITS \<longrightarrow>
           (\<exists>r. convert_length (Finite s q) u u = Inr (Finite s r)
              \<and> \<bar>r - q\<bar> \<le> q * 2 powi (- 51)))
        \<and> (u \<in> symbols WEIGHT_UNITS \<longrightarrow>
           (\<exists>r. convert_weight (Finite s q) u u = Inr (Finite s r)
              \<and> \<bar>r - q\<bar> \<le> q * 2 powi (- 51)))
        \<and> (u \<in> symbols VOLUME_UNITS \<longrightarrow>
           (\<exists>r. convert_volume (Finite s q) u u = Inr (Finite s r)
              \<and> \<bar>r - q\<bar> \<le> q * 2 powi (- 51))))
   \<and> (lower u \<in> {''f'', ''fahrenheit''} \<longrightarrow>
        convert_temperature v u u
          = Inr (fadd (fdiv (fmul (fdiv (fmul (fsub v (fl_lit 32)) (fl_lit 5)) (fl_lit 9))
                   (fl_lit 9)) (fl_lit 5)) (fl_lit 32)))
   \<and> (lower u \<in> {''k'', ''kelvin''} \<longrightarrow>
        convert_temperature v u u
          = Inr (fadd (fsub v (fl_lit (27315 / 100))) (fl_lit (27315 / 100))))"
proof (intro conjI impI; (elim conjE)?)
  assume v: "is_float64 v"
  show "convert_length v ''m'' ''m'' = Inr v"
    by (simp add: convert_length_registered [OF base_units(1) base_units(1)] fmul_one fdiv_one v)
  show "convert_weight v ''kg'' ''kg'' = Inr v"
    by (simp add: convert_weight_registered [OF base_units(2) base_units(2)] fmul_one fdiv_one v)
  show "convert_volume v ''l'' ''l'' = Inr v"
    by (simp add: convert_volume_registered [OF base_units(3) base_units(3)] fmul_one fdiv_one v)
next
  assume "lower u \<in> {''c'', ''celsius''}"
  then show "convert_temperature v u u = Inr v"
    by (auto simp add: convert_temperature_eq temperature_symbols_def spec_to_celsius_def
        spec_from_celsius_def)
next
  assume q: "1 / 10 ^ 300 \<le> q" "q \<le> 10 ^ 300" and "u \<in> symbols LENGTH_UNITS"
  then show "\<exists>r. convert_length (Finite s q) u u = Inr (Finite s r)
      \<and> \<bar>r - q\<bar> \<le> q * 2 powi (- 51)"
    by (intro table_identity [OF convert_length_registered LENGTH_UNITS_in_range])
next
  assume q: "1 / 10 ^ 300 \<le> q" "q \<le> 10 ^ 300" and "u \<in> symbols WEIGHT_UNITS"
  then show "\<exists>r. convert_weight (Finite s q) u u = Inr (Finite s r)
      \<and> \<bar>r - q\<bar> \<le> q * 2 powi (- 51)"
    by (intro table_identity [OF convert_weight_registered WEIGHT_UNITS_in_range])
next
  assume q: "1 / 10 ^ 300 \<le> q" "q \<le> 10 ^ 300" and "u \<in> symbols VOLUME_UNITS"
  then show "\<exists>r. convert_volume (Finite s q) u u = Inr (Finite s r)
      \<and> \<bar>r - q\<bar> \<le> q * 2 powi (- 51)"
    by (intro table_identity [OF convert_volume_registered VOLUME_UNITS_in_range])
next
  assume "lower u \<in> {''f'', ''fahrenheit''}"
  then show "convert_temperature v u u
      = Inr (fadd (fdiv (fmul (fdiv (fmul (fsub v (fl_lit 32)) (fl_lit 5)) (fl_lit 9))
               (fl_lit 9)) (fl_lit 5)) (fl_lit 32))"
    by (auto simp add: convert_temperature_eq temperature_symbols_def spec_to_celsius_def
        spec_from_celsius_def)
next
  assume "lower u \<in> {''k'', ''kelvin''}"
  then show "convert_temperature v u u
      = Inr (fadd (fsub v (fl_lit (27315 / 100))) (fl_lit (27315 / 100)))"
    by (auto simp add: convert_temperature_eq temperature_symbols_def spec_to_celsius_def
        spec_from_celsius_def)
qed

theorem identity_conversion_witness:
  "convert_length (Finite False 5) ''m'' ''m'' = Inr (Finite False 5)
   \<and> convert_weight (Finite False 5) ''kg'' ''kg'' = Inr (Finite False 5)
   \<and> convert_volume (Finite False 5) ''l'' ''l'' = Inr (Finite False 5)
   \<and> convert_temperature (Finite False 5) ''C'' ''C'' = Inr (Finite False 5)
   \<and> (\<exists>r. convert_length (Finite False 7) ''cm'' ''cm'' = Inr (Finite False r)
         \<and> \<bar>r - 7\<bar> \<le> 7 * 2 powi (- 51))
   \<and> (\<exists>r. convert_weight (Finite True 7) ''lb'' ''lb'' = Inr (Finite True r)
         \<and> \<bar>r - 7\<bar> \<le> 7 * 2 powi (- 51))
   \<and> (\<exists>r. convert_volume (Finite False 7) ''gal'' ''gal'' = Inr (Finite False r)
         \<and> \<bar>r - 7\<bar> \<le> 7 * 2 powi (- 51))
   \<and> convert_temperature (Finite False 5) ''F'' ''F''
       = Inr (fadd (fdiv (fmul (fdiv (fmul (fsub (Finite False 5) (fl_lit 32)) (fl_lit 5))
                (fl_lit 9)) (fl_lit 9)) (fl_lit 5)) (fl_lit 32))
   \<and> convert_temperature (Finite False 5) ''K'' ''K''
       = Inr (fadd (fsub (Finite False 5) (fl_lit (27315 / 100))) (fl_lit (27315 / 100)))"
proof -
  have five: "is_float64 (Finite False 5)" by (rule is_float64_examples)
  have q: "(1::rat) / 10 ^ 300 \<le> 7 \<and> (7::rat) \<le> 10 ^ 300" by simp
  have u: "''cm'' \<in> symbols LENGTH_UNITS" "''lb'' \<in> symbols WEIGHT_UNITS"
    "''gal'' \<in> symbols VOLUME_UNITS"
    by (simp_all add: symbols_LENGTH_UNITS symbols_WEIGHT_UNITS symbols_VOLUME_UNITS)
  have t: "lower ''C'' \<in> {''c'', ''celsius''}" "lower ''F'' \<in> {''f'', ''fahrenheit''}"
    "lower ''K'' \<in> {''k'', ''kelvin''}"
    by (simp_all add: lower_temperature_examples)
  note base = identity_conversion [of "Finite False 5" "''C''" 7 False, THEN conjunct1,
      THEN mp, OF five]
  note celsius = identity_conversion [of "Finite False 5" "''C''" 7 False, THEN conjunct2,
      THEN conjunct1, THEN mp, OF t(1)]
  note cm = identity_conversion [of "Finite False 5" "''cm''" 7 False, THEN conjunct2,
      THEN conjunct2, THEN conjunct1, THEN mp, OF q, THEN conjunct1, THEN mp, OF u(1)]
  note lb = identity_conversion [of "Finite False 5" "''lb''" 7 True, THEN conjunct2,
      THEN conjunct2, THEN conjunct1, THEN mp, OF q, THEN conjunct2, THEN conjunct1,
      THEN mp, OF u(2)]
  note gal = identity_conversion [of "Finite False 5" "''gal''" 7 False, THEN conjunct2,
      THEN conjunct2, THEN conjunct1, THEN mp, OF q, THEN conjunct2, THEN conjunct2,
      THEN mp, OF u(3)]
  note fahrenheit = identity_conversion [of "Finite False 5" "''F''" 7 False, THEN conjunct2,
      THEN conjunct2, THEN conjunct2, THEN conjunct1, THEN mp, OF t(2)]
  note kelvin = identity_conversion [of "Finite False 5" "''K''" 7 False, THEN conjunct2,
      THEN conjunct2, THEN conjunct2, THEN conjunct2, THEN mp, OF t(3)]
  show ?thesis
    by (intro conjI base [THEN conjunct1] base [THEN conjunct2, THEN conjunct1]
        base [THEN conjunct2, THEN conjunct2] celsius cm lb gal fahrenheit kelvin)
qed

end
